theory Spec2Isabelle
  imports Main
begin

section \<open>Data model of the Frontegg OAuth client\<close>

text \<open>
  Strings are byte strings (\<open>string\<close>); a JavaScript number that holds a time in
  milliseconds or a lifetime in seconds is an \<open>int\<close>. A value of type
  \<open>T | null\<close> is a \<open>T option\<close>.
\<close>

datatype picture = PicUndefined | PicNull | PicUrl string

record FronteggUserData =
  externalUserId :: string
  ud_accessToken :: string
  ud_name :: string
  ud_email :: string
  profilePictureUrl :: picture
  externalWorkspaceId :: string

text \<open>The argument of the constructor; the last three fields are optional.\<close>

record config =
  cfg_baseUrl :: string
  cfg_clientId :: string
  cfg_redirectUri :: string
  cfg_logoutRedirectUri :: string
  cfg_userData :: "FronteggUserData option"
  cfg_refreshToken :: "string option"
  cfg_tokenExpirationTime :: "int option"

text \<open>
  The fields of a \<open>FronteggOAuthClient\<close>. The slot \<open>userDataPromise\<close> holds the
  identity of the pending promise, a natural number.
\<close>

record client =
  userData :: "FronteggUserData option"
  accessToken :: "string option"
  refreshToken :: "string option"
  tokenExpirationTime :: "int option"
  baseUrl :: string
  clientId :: string
  redirectUri :: string
  logoutRedirectUri :: string
  userDataPromise :: "nat option"

text \<open>JavaScript truthiness of \<open>string | null | undefined\<close> and of \<open>number | null | undefined\<close>.\<close>

fun truthy_str :: "string option \<Rightarrow> bool" where
  "truthy_str None = False"
| "truthy_str (Some s) = (s \<noteq> [])"

fun truthy_num :: "int option \<Rightarrow> bool" where
  "truthy_num None = False"
| "truthy_num (Some n) = (n \<noteq> 0)"

text \<open>
  \<open>calculateTokenExpirationTime\<close>; the first argument is the value of \<open>Date.now()\<close>.
  The arithmetic is that of the integers: it is the code's where the code's doubles are
  exact, on whole numbers of seconds and milliseconds below \<open>2^53\<close>.
\<close>

definition calculateTokenExpirationTime :: "int \<Rightarrow> int \<Rightarrow> int" where
  "calculateTokenExpirationTime now expiresInSeconds = now + expiresInSeconds * 1000"

text \<open>\<open>isTokenExpired\<close>; the second argument is the value of \<open>Date.now()\<close>.\<close>

definition isTokenExpired :: "int option \<Rightarrow> int \<Rightarrow> bool" where
  "isTokenExpired expirationTime now =
     (case expirationTime of
        None \<Rightarrow> True
      | Some t \<Rightarrow> if \<not> truthy_num (Some t) then True else t - 60 * 60 * 1000 < now)"

text \<open>The constructor: the fields start as \<open>null\<close> and the three guarded assignments follow.\<close>

definition constructor :: "config \<Rightarrow> client" where
  "constructor cfg =
     (let c0 = \<lparr> userData = None, accessToken = None, refreshToken = None,
                 tokenExpirationTime = None,
                 baseUrl = cfg_baseUrl cfg, clientId = cfg_clientId cfg,
                 redirectUri = cfg_redirectUri cfg,
                 logoutRedirectUri = cfg_logoutRedirectUri cfg,
                 userDataPromise = None \<rparr>;
          c1 = (case cfg_userData cfg of
                  Some u \<Rightarrow> c0 \<lparr> userData := Some u, accessToken := Some (ud_accessToken u) \<rparr>
                | None \<Rightarrow> c0);
          c2 = (if truthy_str (cfg_refreshToken cfg)
                then c1 \<lparr> refreshToken := cfg_refreshToken cfg \<rparr> else c1);
          c3 = (if truthy_num (cfg_tokenExpirationTime cfg)
                then c2 \<lparr> tokenExpirationTime := cfg_tokenExpirationTime cfg \<rparr> else c2)
      in c3)"


section \<open>JSON values, \<open>JSON.stringify\<close> and \<open>String.prototype.includes\<close>\<close>

text \<open>
  A value as \<open>response.json()\<close> gives it. An object is the list of its members in
  order, with distinct keys. Numbers are integers: the one number the code reads is
  \<open>expires_in\<close>, a lifetime in seconds.
\<close>

datatype json =
    JNull
  | JBool bool
  | JNum int
  | JStr string
  | JArr "json list"
  | JObj "(string \<times> json) list"

text \<open>Truthiness of a parsed JSON value, as \<open>||\<close> tests it.\<close>

fun json_truthy :: "json \<Rightarrow> bool" where
  "json_truthy JNull = False"
| "json_truthy (JBool b) = b"
| "json_truthy (JNum n) = (n \<noteq> 0)"
| "json_truthy (JStr s) = (s \<noteq> [])"
| "json_truthy (JArr xs) = True"
| "json_truthy (JObj kvs) = True"

definition hex_digit :: "string \<Rightarrow> nat \<Rightarrow> char" where
  "hex_digit digits n = digits ! (n mod 16)"

definition hex2 :: "string \<Rightarrow> nat \<Rightarrow> string" where
  "hex2 digits n = [hex_digit digits (n div 16), hex_digit digits n]"

fun show_nat :: "nat \<Rightarrow> string" where
  "show_nat n =
     (if n < 10 then [hex_digit ''0123456789'' n]
      else show_nat (n div 10) @ [hex_digit ''0123456789'' (n mod 10)])"

definition show_int :: "int \<Rightarrow> string" where
  "show_int i = (if i < 0 then CHR ''-'' # show_nat (nat (- i)) else show_nat (nat i))"

text \<open>The escapes of \<open>JSON.stringify\<close> for one character of a string.\<close>

definition json_escape :: "char \<Rightarrow> string" where
  "json_escape c =
     (if c = CHR 0x22 then [CHR 0x5C, CHR 0x22]
      else if c = CHR 0x5C then [CHR 0x5C, CHR 0x5C]
      else if c = CHR 0x08 then [CHR 0x5C, CHR ''b'']
      else if c = CHR 0x09 then [CHR 0x5C, CHR ''t'']
      else if c = CHR 0x0A then [CHR 0x5C, CHR ''n'']
      else if c = CHR 0x0C then [CHR 0x5C, CHR ''f'']
      else if c = CHR 0x0D then [CHR 0x5C, CHR ''r'']
      else if (of_char c :: nat) < 32
        then [CHR 0x5C, CHR ''u'', CHR ''0'', CHR ''0''] @ hex2 ''0123456789abcdef'' (of_char c)
      else [c])"

definition json_quote :: "string \<Rightarrow> string" where
  "json_quote s = [CHR 0x22] @ concat (map json_escape s) @ [CHR 0x22]"

fun join :: "string \<Rightarrow> string list \<Rightarrow> string" where
  "join sep [] = []"
| "join sep [x] = x"
| "join sep (x # y # ys) = x @ sep @ join sep (y # ys)"

primrec JSON_stringify :: "json \<Rightarrow> string" where
  "JSON_stringify JNull = ''null''"
| "JSON_stringify (JBool b) = (if b then ''true'' else ''false'')"
| "JSON_stringify (JNum n) = show_int n"
| "JSON_stringify (JStr s) = json_quote s"
| "JSON_stringify (JArr xs) = ''['' @ join '','' (map JSON_stringify xs) @ '']''"
| "JSON_stringify (JObj kvs) =
     ''{'' @ join '','' (map (\<lambda>(k, v). json_quote k @ '':'' @ v)
                         (map (map_prod (\<lambda>k. k) JSON_stringify) kvs)) @ ''}''"

text \<open>\<open>s.includes(key)\<close>: \<open>key\<close> occurs in \<open>s\<close> as a contiguous substring.\<close>

fun starts_with :: "string \<Rightarrow> string \<Rightarrow> bool" where
  "starts_with s [] = True"
| "starts_with [] (k # ks) = False"
| "starts_with (c # cs) (k # ks) = (c = k \<and> starts_with cs ks)"

fun str_includes :: "string \<Rightarrow> string \<Rightarrow> bool" where
  "str_includes [] key = starts_with [] key"
| "str_includes (c # cs) key = (starts_with (c # cs) key \<or> str_includes cs key)"


section \<open>Schema validation\<close>

text \<open>
  A failed \<open>parse\<close> of a zod schema raises a \<open>ZodError\<close>: a list of issues, each
  with the path of the field, the type expected and the type received.
\<close>

datatype issue = Issue "string list" string string

fun parsedType :: "json option \<Rightarrow> string" where
  "parsedType None = ''undefined''"
| "parsedType (Some JNull) = ''null''"
| "parsedType (Some (JBool b)) = ''boolean''"
| "parsedType (Some (JNum n)) = ''number''"
| "parsedType (Some (JStr s)) = ''string''"
| "parsedType (Some (JArr xs)) = ''array''"
| "parsedType (Some (JObj kvs)) = ''object''"

text \<open>\<open>z.string()\<close> and \<open>z.number()\<close> at a path.\<close>

fun z_string :: "string list \<Rightarrow> json option \<Rightarrow> issue list + string" where
  "z_string p (Some (JStr s)) = Inr s"
| "z_string p v = Inl [Issue p ''string'' (parsedType v)]"

fun z_number :: "string list \<Rightarrow> json option \<Rightarrow> issue list + int" where
  "z_number p (Some (JNum n)) = Inr n"
| "z_number p v = Inl [Issue p ''number'' (parsedType v)]"

text \<open>\<open>z.string().nullable().optional()\<close> at a path.\<close>

fun z_string_nullable_optional :: "string list \<Rightarrow> json option \<Rightarrow> issue list + picture" where
  "z_string_nullable_optional p None = Inr PicUndefined"
| "z_string_nullable_optional p (Some JNull) = Inr PicNull"
| "z_string_nullable_optional p (Some (JStr s)) = Inr (PicUrl s)"
| "z_string_nullable_optional p v = Inl [Issue p ''string'' (parsedType v)]"

fun issues :: "issue list + 'a \<Rightarrow> issue list" where
  "issues (Inl es) = es"
| "issues (Inr v) = []"

record GetFronteggTokenResponse =
  token_type :: string
  access_token :: string
  id_token :: string
  refresh_token :: string
  expires_in :: int

text \<open>\<open>GET_FRONTEGG_TOKEN_RESPONSE_SCHEMA.parse\<close>.\<close>

definition GET_FRONTEGG_TOKEN_RESPONSE_SCHEMA_parse ::
    "json \<Rightarrow> issue list + GetFronteggTokenResponse" where
  "GET_FRONTEGG_TOKEN_RESPONSE_SCHEMA_parse j =
     (case j of
        JObj kvs \<Rightarrow>
          (let r1 = z_string [''token_type''] (map_of kvs ''token_type'');
               r2 = z_string [''access_token''] (map_of kvs ''access_token'');
               r3 = z_string [''id_token''] (map_of kvs ''id_token'');
               r4 = z_string [''refresh_token''] (map_of kvs ''refresh_token'');
               r5 = z_number [''expires_in''] (map_of kvs ''expires_in'')
           in case (r1, r2, r3, r4, r5) of
                (Inr v1, Inr v2, Inr v3, Inr v4, Inr v5) \<Rightarrow>
                  Inr \<lparr> token_type = v1, access_token = v2, id_token = v3,
                        refresh_token = v4, expires_in = v5 \<rparr>
              | _ \<Rightarrow> Inl (issues r1 @ issues r2 @ issues r3 @ issues r4 @ issues r5))
      | _ \<Rightarrow> Inl [Issue [] ''object'' (parsedType (Some j))])"

record GetFronteggUserDataResponse =
  ur_id :: string
  ur_email :: string
  ur_name :: string
  ur_profilePictureUrl :: picture
  ur_tenantId :: string

text \<open>\<open>GET_FRONTEGG_USER_DATA_RESPONSE_SCHEMA.parse\<close>.\<close>

definition GET_FRONTEGG_USER_DATA_RESPONSE_SCHEMA_parse ::
    "json \<Rightarrow> issue list + GetFronteggUserDataResponse" where
  "GET_FRONTEGG_USER_DATA_RESPONSE_SCHEMA_parse j =
     (case j of
        JObj kvs \<Rightarrow>
          (let r1 = z_string [''id''] (map_of kvs ''id'');
               r2 = z_string [''email''] (map_of kvs ''email'');
               r3 = z_string [''name''] (map_of kvs ''name'');
               r4 = z_string_nullable_optional [''profilePictureUrl'']
                      (map_of kvs ''profilePictureUrl'');
               r5 = z_string [''tenantId''] (map_of kvs ''tenantId'')
           in case (r1, r2, r3, r4, r5) of
                (Inr v1, Inr v2, Inr v3, Inr v4, Inr v5) \<Rightarrow>
                  Inr \<lparr> ur_id = v1, ur_email = v2, ur_name = v3,
                        ur_profilePictureUrl = v4, ur_tenantId = v5 \<rparr>
              | _ \<Rightarrow> Inl (issues r1 @ issues r2 @ issues r3 @ issues r4 @ issues r5))
      | _ \<Rightarrow> Inl [Issue [] ''object'' (parsedType (Some j))])"

section \<open>HTTP responses and errors\<close>

text \<open>
  A response as the code reads it: its status, what \<open>response.text()\<close> and
  \<open>response.json()\<close> give where the code calls them (\<open>None\<close> when the promise
  rejects, as \<open>json()\<close> does on an empty body or on a body already read) and the
  header \<open>frontegg-trace-id\<close> (\<open>None\<close> when absent).
\<close>

record response =
  res_status :: nat
  res_text :: "string option"
  res_json :: "json option"
  res_trace_id :: "string option"

text \<open>What \<open>await fetch(url, options)\<close> gives: a rejection (network failure) or a response.\<close>

datatype fetched = FailedToFetch | Responded response

definition res_ok :: "response \<Rightarrow> bool" where
  "res_ok r = (200 \<le> res_status r \<and> res_status r \<le> 299)"

text \<open>
  The \<open>body\<close> of a \<open>FronteggError\<close>: a JSON value (or the default message, a string),
  or the object \<open>{response, error}\<close> of a failed validation.
\<close>

datatype error_body = Body json | ResponseAndError json "issue list"

record FronteggError =
  fe_text :: string
  fe_status :: nat
  fe_url :: string
  fronteggTraceId :: string
  fe_body :: error_body

datatype error =
    FetchTypeError
  | Frontegg FronteggError
  | JsonSyntaxError
  | ZodError "issue list"
  | InvalidURL

definition defaultMessage :: string where
  "defaultMessage = ''Error while fetching Frontegg endpoint.''"

text \<open>\<open>fetchWithAssert\<close>, given what \<open>fetch\<close> gave.\<close>

definition fetchWithAssert :: "string \<Rightarrow> fetched \<Rightarrow> error + response" where
  "fetchWithAssert url f =
     (case f of
        FailedToFetch \<Rightarrow> Inl FetchTypeError
      | Responded r \<Rightarrow>
          if \<not> res_ok r then
            (let text = (case res_text r of
                           None \<Rightarrow> defaultMessage
                         | Some t \<Rightarrow> if t \<noteq> [] then t else defaultMessage);
                 body = (case res_json r of
                           None \<Rightarrow> JStr defaultMessage
                         | Some j \<Rightarrow> if json_truthy j then j else JStr defaultMessage)
             in Inl (Frontegg \<lparr> fe_text = text, fe_status = res_status r, fe_url = url,
                      fronteggTraceId = (case res_trace_id r of
                                           None \<Rightarrow> ''undefined'' | Some t \<Rightarrow> t),
                      fe_body = Body body \<rparr>))
          else Inr r)"


section \<open>The browser: local storage and random numbers\<close>

text \<open>
  \<open>localStorage\<close> is a map from keys to strings. The floating-point product of
  \<open>createRandomString\<close> is not computed here: the \<open>n\<close>-th evaluation of
  \<open>Math.floor(Math.random() * possible.length)\<close> gives the integer \<open>random_index n\<close>,
  whatever it is, and \<open>drawn\<close> counts the evaluations made.
\<close>

record browser =
  localStorage :: "string \<rightharpoonup> string"
  random_index :: "nat \<Rightarrow> int"
  drawn :: nat

definition Math_floor_random :: "browser \<Rightarrow> int \<times> browser" where
  "Math_floor_random b = (random_index b (drawn b), b \<lparr> drawn := Suc (drawn b) \<rparr>)"

definition charAt :: "string \<Rightarrow> int \<Rightarrow> string" where
  "charAt s i = (if 0 \<le> i \<and> i < int (length s) then [s ! nat i] else [])"

definition possible :: string where
  "possible = ''ABCDEFGHIJKLMNOPQRSTUVWXYZabcdefghijklmnopqrstuvwxyz0123456789''"

text \<open>The loop of \<open>createRandomString\<close>, with the number of rounds left and the text so far.\<close>

fun createRandomString_loop :: "nat \<Rightarrow> string \<Rightarrow> browser \<Rightarrow> string \<times> browser" where
  "createRandomString_loop 0 text b = (text, b)"
| "createRandomString_loop (Suc n) text b =
     (let (i, b') = Math_floor_random b
      in createRandomString_loop n (text @ charAt possible i) b')"

definition createRandomString :: "nat \<Rightarrow> browser \<Rightarrow> string \<times> browser" where
  "createRandomString len b = createRandomString_loop len [] b"

text \<open>
  \<open>getCodeVerifier\<close>. The wait of 200 ms after \<open>setItem\<close> changes no state and is
  not modelled.
\<close>

definition newCodeVerifier :: "browser \<Rightarrow> string \<times> browser" where
  "newCodeVerifier b =
     (let (verifier, b1) = createRandomString 16 b;
          b2 = b1 \<lparr> localStorage := (localStorage b1)(''LOGIN_VERIFIER_KEY'' \<mapsto> verifier) \<rparr>
      in (verifier, b2))"

definition getCodeVerifier :: "browser \<Rightarrow> string \<times> browser" where
  "getCodeVerifier b =
     (case localStorage b ''LOGIN_VERIFIER_KEY'' of
        Some localStorageVerifier \<Rightarrow>
          if localStorageVerifier \<noteq> [] then (localStorageVerifier, b) else newCodeVerifier b
      | None \<Rightarrow> newCodeVerifier b)"

section \<open>The four requests to the provider\<close>

record request =
  req_method :: string
  req_url :: string
  req_credentials :: "string option"
  req_mode :: "string option"
  req_headers :: "(string \<times> string) list"
  req_body :: "string option"

subsection \<open>\<open>fetchAccessTokenByCookie\<close>\<close>

definition fetchAccessTokenByCookie_request :: "client \<Rightarrow> request" where
  "fetchAccessTokenByCookie_request c =
     \<lparr> req_method = ''POST'',
       req_url = baseUrl c @ ''/frontegg/oauth/authorize/silent'',
       req_credentials = Some ''include'',
       req_mode = Some ''cors'',
       req_headers = [(''Content-Type'', ''application/json'')],
       req_body = None \<rparr>"

definition sensitive_keys :: "string list" where
  "sensitive_keys = [''access_token'', ''id_token'', ''refresh_token'']"

text \<open>
  What \<open>fetchAccessTokenByCookie\<close> does once \<open>fetch\<close> has given \<open>f\<close>; \<open>now\<close> is the
  value of \<open>Date.now()\<close> when the tokens are stored. The result is the value returned
  or the error thrown, with the client as the call leaves it.
\<close>

definition fetchAccessTokenByCookie :: "fetched \<Rightarrow> int \<Rightarrow> client \<Rightarrow> (error + string) \<times> client" where
  "fetchAccessTokenByCookie f now c =
     (case fetchWithAssert (baseUrl c @ ''/frontegg/oauth/authorize/silent'') f of
        Inl e \<Rightarrow> (Inl e, c)
      | Inr r \<Rightarrow>
          (case res_json r of
             None \<Rightarrow> (Inl JsonSyntaxError, c)
           | Some j \<Rightarrow>
               (case GET_FRONTEGG_TOKEN_RESPONSE_SCHEMA_parse j of
                  Inr data \<Rightarrow>
                    (Inr (access_token data),
                     c \<lparr> accessToken := Some (access_token data),
                         refreshToken := Some (refresh_token data),
                         tokenExpirationTime :=
                           Some (calculateTokenExpirationTime now (expires_in data)) \<rparr>)
                | Inl err \<Rightarrow>
                    (let includeResponseBody =
                           (\<not> list_ex (\<lambda>key. str_includes (JSON_stringify j) key) sensitive_keys)
                     in (Inl (Frontegg
                           \<lparr> fe_text = ''Error while parsing Frontegg response.'',
                             fe_status = 500,
                             fe_url = baseUrl c @ ''/frontegg/oauth/authorize/silent'',
                             fronteggTraceId = (case res_trace_id r of
                                                  None \<Rightarrow> ''undefined'' | Some t \<Rightarrow> t),
                             fe_body = ResponseAndError
                               (if includeResponseBody then j
                                else JStr ''Response body contains sensitive information.'')
                               err \<rparr>), c)))))"

subsection \<open>\<open>fetchAccessTokenByOAuthCode\<close>\<close>

definition fetchAccessTokenByOAuthCode_request :: "string \<Rightarrow> client \<Rightarrow> browser \<Rightarrow> request \<times> browser" where
  "fetchAccessTokenByOAuthCode_request oauthCode c b =
     (let (code_verifier, b') = getCodeVerifier b
      in (\<lparr> req_method = ''POST'',
            req_url = baseUrl c @ ''/frontegg/oauth/token'',
            req_credentials = None,
            req_mode = None,
            req_headers = [(''Content-Type'', ''application/json'')],
            req_body = Some (JSON_stringify (JObj
              [(''code'', JStr oauthCode),
               (''redirect_uri'', JStr (redirectUri c)),
               (''code_verifier'', JStr code_verifier),
               (''grant_type'', JStr ''authorization_code'')])) \<rparr>, b'))"

definition fetchAccessTokenByOAuthCode ::
    "string \<Rightarrow> fetched \<Rightarrow> int \<Rightarrow> client \<Rightarrow> browser \<Rightarrow> (error + string) \<times> client \<times> browser" where
  "fetchAccessTokenByOAuthCode oauthCode f now c b =
     (let (req, b') = fetchAccessTokenByOAuthCode_request oauthCode c b
      in case fetchWithAssert (req_url req) f of
           Inl e \<Rightarrow> (Inl e, c, b')
         | Inr r \<Rightarrow>
             (case res_json r of
                None \<Rightarrow> (Inl JsonSyntaxError, c, b')
              | Some j \<Rightarrow>
                  (case GET_FRONTEGG_TOKEN_RESPONSE_SCHEMA_parse j of
                     Inl err \<Rightarrow> (Inl (ZodError err), c, b')
                   | Inr data \<Rightarrow>
                       (Inr (access_token data),
                        c \<lparr> accessToken := Some (access_token data),
                            refreshToken := Some (refresh_token data),
                            tokenExpirationTime :=
                              Some (calculateTokenExpirationTime now (expires_in data)) \<rparr>,
                        b'))))"

subsection \<open>\<open>fetchAccessTokenByOAuthRefreshToken\<close>\<close>

definition fetchAccessTokenByOAuthRefreshToken_request :: "string \<Rightarrow> client \<Rightarrow> request" where
  "fetchAccessTokenByOAuthRefreshToken_request refresh c =
     \<lparr> req_method = ''POST'',
       req_url = baseUrl c @ ''/frontegg/oauth/token'',
       req_credentials = None,
       req_mode = None,
       req_headers = [(''Content-Type'', ''application/json'')],
       req_body = Some (JSON_stringify (JObj
         [(''refresh_token'', JStr refresh),
          (''grant_type'', JStr ''refresh_token'')])) \<rparr>"

definition fetchAccessTokenByOAuthRefreshToken ::
    "fetched \<Rightarrow> int \<Rightarrow> client \<Rightarrow> (error + string) \<times> client" where
  "fetchAccessTokenByOAuthRefreshToken f now c =
     (case fetchWithAssert (baseUrl c @ ''/frontegg/oauth/token'') f of
        Inl e \<Rightarrow> (Inl e, c)
      | Inr r \<Rightarrow>
          (case res_json r of
             None \<Rightarrow> (Inl JsonSyntaxError, c)
           | Some j \<Rightarrow>
               (case GET_FRONTEGG_TOKEN_RESPONSE_SCHEMA_parse j of
                  Inl err \<Rightarrow> (Inl (ZodError err), c)
                | Inr data \<Rightarrow>
                    (Inr (access_token data),
                     c \<lparr> accessToken := Some (access_token data),
                         refreshToken := Some (refresh_token data),
                         tokenExpirationTime :=
                           Some (calculateTokenExpirationTime now (expires_in data)) \<rparr>))))"

subsection \<open>\<open>fetchUserData\<close>\<close>

definition fetchUserData_request :: "string \<Rightarrow> client \<Rightarrow> request" where
  "fetchUserData_request userAccessToken c =
     \<lparr> req_method = ''GET'',
       req_url = baseUrl c @ ''/frontegg/identity/resources/users/v2/me'',
       req_credentials = Some ''include'',
       req_mode = None,
       req_headers = [(''Authorization'', ''Bearer '' @ userAccessToken),
                      (''Content-Type'', ''application/json'')],
       req_body = None \<rparr>"

definition fetchUserData :: "string \<Rightarrow> fetched \<Rightarrow> client \<Rightarrow> error + FronteggUserData" where
  "fetchUserData userAccessToken f c =
     (case fetchWithAssert (baseUrl c @ ''/frontegg/identity/resources/users/v2/me'') f of
        Inl e \<Rightarrow> Inl e
      | Inr r \<Rightarrow>
          (case res_json r of
             None \<Rightarrow> Inl JsonSyntaxError
           | Some j \<Rightarrow>
               (case GET_FRONTEGG_USER_DATA_RESPONSE_SCHEMA_parse j of
                  Inl err \<Rightarrow> Inl (ZodError err)
                | Inr data \<Rightarrow>
                    Inr \<lparr> externalUserId = ur_id data,
                          ud_accessToken = userAccessToken,
                          ud_name = ur_name data,
                          ud_email = ur_email data,
                          profilePictureUrl = ur_profilePictureUrl data,
                          externalWorkspaceId = ur_tenantId data \<rparr>)))"


section \<open>URLs\<close>

text \<open>
  A \<open>URL\<close> object: the serialized scheme, authority and path, the query and the
  fragment (each \<open>None\<close> when absent), and the list of pairs behind
  \<open>searchParams\<close>. The parser of the platform, \<open>new URL(s)\<close>, is a parameter
  \<open>new_URL\<close> of the functions that call it; it gives \<open>None\<close> where the platform
  throws a \<open>TypeError\<close>.
\<close>

record URL =
  url_prefix :: string
  url_query :: "string option"
  url_fragment :: "string option"
  searchParams :: "(string \<times> string) list"

text \<open>The serializer of \<open>application/x-www-form-urlencoded\<close>.\<close>

definition urlencoded_keep :: string where
  "urlencoded_keep =
     ''ABCDEFGHIJKLMNOPQRSTUVWXYZabcdefghijklmnopqrstuvwxyz0123456789*-._''"

definition urlencoded_byte :: "char \<Rightarrow> string" where
  "urlencoded_byte c =
     (if c \<in> set urlencoded_keep then [c]
      else if c = CHR '' '' then ''+''
      else CHR ''%'' # hex2 ''0123456789ABCDEF'' (of_char c))"

definition urlencoded_string :: "string \<Rightarrow> string" where
  "urlencoded_string s = concat (map urlencoded_byte s)"

definition urlencoded_serialize :: "(string \<times> string) list \<Rightarrow> string" where
  "urlencoded_serialize ps =
     join ''&'' (map (\<lambda>(k, v). urlencoded_string k @ ''='' @ urlencoded_string v) ps)"

text \<open>
  \<open>url.searchParams.set(name, value)\<close>: the first pair of that name takes the value and
  the others of that name go; with no such pair, a new one is appended. The query of the
  URL follows the list.
\<close>

fun set_pair :: "string \<Rightarrow> string \<Rightarrow> (string \<times> string) list \<Rightarrow> (string \<times> string) list" where
  "set_pair k v [] = [(k, v)]"
| "set_pair k v ((k', v') # ps) =
     (if k' = k then (k, v) # filter (\<lambda>(n, x). n \<noteq> k) ps
      else (k', v') # set_pair k v ps)"

definition searchParams_set :: "string \<Rightarrow> string \<Rightarrow> URL \<Rightarrow> URL" where
  "searchParams_set k v u =
     (let ps = set_pair k v (searchParams u)
      in u \<lparr> searchParams := ps,
             url_query := (if urlencoded_serialize ps = [] then None
                           else Some (urlencoded_serialize ps)) \<rparr>)"

definition URL_toString :: "URL \<Rightarrow> string" where
  "URL_toString u =
     url_prefix u
     @ (case url_query u of None \<Rightarrow> [] | Some q \<Rightarrow> ''?'' @ q)
     @ (case url_fragment u of None \<Rightarrow> [] | Some f \<Rightarrow> ''#'' @ f)"

subsection \<open>\<open>getOAuthLogoutUrl\<close>\<close>

definition getOAuthLogoutUrl :: "(string \<Rightarrow> URL option) \<Rightarrow> client \<Rightarrow> error + string" where
  "getOAuthLogoutUrl new_URL c =
     (case new_URL (baseUrl c @ ''/frontegg/oauth/logout'') of
        None \<Rightarrow> Inl InvalidURL
      | Some url \<Rightarrow>
          Inr (URL_toString
                 (searchParams_set ''post_logout_redirect_uri'' (logoutRedirectUri c) url)))"

subsection \<open>\<open>getOAuthLoginUrl\<close>\<close>

text \<open>\<open>btoa\<close> on a string of bytes.\<close>

definition base64_alphabet :: string where
  "base64_alphabet = ''ABCDEFGHIJKLMNOPQRSTUVWXYZabcdefghijklmnopqrstuvwxyz0123456789+/''"

definition b64 :: "nat \<Rightarrow> char" where
  "b64 n = base64_alphabet ! (n mod 64)"

fun btoa :: "string \<Rightarrow> string" where
  "btoa [] = []"
| "btoa [a] =
     (let x = (of_char a :: nat)
      in [b64 (x div 4), b64 ((x mod 4) * 16), CHR ''='', CHR ''=''])"
| "btoa [a, b] =
     (let x = (of_char a :: nat); y = (of_char b :: nat)
      in [b64 (x div 4), b64 ((x mod 4) * 16 + y div 16), b64 ((y mod 16) * 4), CHR ''=''])"
| "btoa (a # b # c # rest) =
     (let x = (of_char a :: nat); y = (of_char b :: nat); z = (of_char c :: nat)
      in [b64 (x div 4), b64 ((x mod 4) * 16 + y div 16),
          b64 ((y mod 16) * 4 + z div 64), b64 (z mod 64)] @ btoa rest)"

text \<open>\<open>s.replace(/c/g, r)\<close> for a single character \<open>c\<close>.\<close>

definition replace_all :: "char \<Rightarrow> string \<Rightarrow> string \<Rightarrow> string" where
  "replace_all c r s = concat (map (\<lambda>x. if x = c then r else [x]) s)"

text \<open>
  \<open>getOAuthLoginUrl\<close>. The digest \<open>crypto.subtle.digest('SHA-256', _)\<close> is the
  parameter \<open>SHA_256\<close>, from the bytes of the verifier to the bytes of the digest.
\<close>

definition getOAuthLoginUrl ::
    "(string \<Rightarrow> URL option) \<Rightarrow> (string \<Rightarrow> string) \<Rightarrow> client \<Rightarrow> browser \<Rightarrow> (error + URL) \<times> browser" where
  "getOAuthLoginUrl new_URL SHA_256 c b =
     (let (codeVerifier, b1) = getCodeVerifier b;
          digest = SHA_256 codeVerifier;
          hashedVerifier =
            replace_all CHR ''/'' ''_'' (replace_all CHR ''+'' ''-'' (replace_all CHR ''='' [] (btoa digest)));
          (nonce, b2) = createRandomString 16 b1
      in case new_URL (baseUrl c @ ''/frontegg/oauth/authorize'') of
           None \<Rightarrow> (Inl InvalidURL, b2)
         | Some loginUrl \<Rightarrow>
             (Inr (searchParams_set ''nonce'' nonce
                  (searchParams_set ''code_challenge_method'' ''S256''
                  (searchParams_set ''code_challenge'' hashedVerifier
                  (searchParams_set ''scope'' ''openid profile email''
                  (searchParams_set ''response_type'' ''code''
                  (searchParams_set ''redirect_uri'' (redirectUri c)
                  (searchParams_set ''client_id'' (clientId c) loginUrl))))))), b2))"


section \<open>\<open>getUserData\<close> on the event loop\<close>

text \<open>
  An operation started by \<open>getUserData\<close> is the promise chain
  \<open>getAccessToken(..).then(fetchUserData).then(store).catch(clear)\<close>. It waits at one
  of four places: for the response of the silent exchange, for the response of the
  refresh exchange, with the access token in hand before \<open>fetchUserData\<close> is called, or
  for the response of the profile request.
\<close>

datatype stage =
    AwaitingCookie
  | AwaitingRefresh
  | HasToken string
  | AwaitingProfile string

text \<open>
  The world: the client, the browser, the operations in flight by the identity of their
  promise, the next unused identity, the requests sent so far, and the promises settled
  so far with their outcome.
\<close>

record world =
  cl :: client
  br :: browser
  ops :: "(nat \<times> stage) list"
  next_id :: nat
  sent :: "request list"
  settled :: "(nat \<times> (error + FronteggUserData)) list"

text \<open>
  The synchronous part of \<open>getAccessToken\<close>, up to its first \<open>await\<close> or its
  \<open>return\<close>: the stage at which the caller then waits, and the requests sent.
  \<open>now\<close> is the value of \<open>Date.now()\<close>.
\<close>

definition getAccessToken :: "bool \<Rightarrow> int \<Rightarrow> client \<Rightarrow> stage \<times> request list" where
  "getAccessToken forceRefresh now c =
     (if \<not> truthy_str (accessToken c)
        then (AwaitingCookie, [fetchAccessTokenByCookie_request c])
      else if truthy_str (refreshToken c)
              \<and> (forceRefresh \<or> isTokenExpired (tokenExpirationTime c) now)
        then (AwaitingRefresh,
              [fetchAccessTokenByOAuthRefreshToken_request
                 (case refreshToken c of Some r \<Rightarrow> r | None \<Rightarrow> []) c])
      else (HasToken (case accessToken c of Some a \<Rightarrow> a | None \<Rightarrow> []), []))"

text \<open>
  What the promise returned by \<open>getUserData\<close> is resolved with: the cached profile, or
  the promise in the slot \<open>userDataPromise\<close>.
\<close>

datatype returned = Profile FronteggUserData | Promise nat

text \<open>The second half of \<open>getUserData\<close>, from \<open>if (!this.userDataPromise)\<close> on.\<close>

definition getUserData_pending :: "bool \<Rightarrow> int \<Rightarrow> world \<Rightarrow> returned \<times> world" where
  "getUserData_pending forceRefresh now w =
     (case userDataPromise (cl w) of
        Some p \<Rightarrow> (Promise p, w)
      | None \<Rightarrow>
          (let (st, reqs) = getAccessToken forceRefresh now (cl w);
               p = next_id w
           in (Promise p,
               w \<lparr> cl := (cl w) \<lparr> userDataPromise := Some p \<rparr>,
                   ops := ops w @ [(p, st)],
                   next_id := Suc p,
                   sent := sent w @ reqs \<rparr>)))"

text \<open>
  \<open>getUserData\<close>; \<open>now1\<close> and \<open>now2\<close> are the values of \<open>Date.now()\<close> in its own
  test and in \<open>getAccessToken\<close>.
\<close>

definition getUserData :: "bool \<Rightarrow> int \<Rightarrow> int \<Rightarrow> world \<Rightarrow> returned \<times> world" where
  "getUserData forceRefresh now1 now2 w =
     (case userData (cl w) of
        Some u \<Rightarrow>
          if \<not> isTokenExpired (tokenExpirationTime (cl w)) now1 \<and> \<not> forceRefresh
          then (Profile u, w)
          else getUserData_pending forceRefresh now2 w
      | None \<Rightarrow> getUserData_pending forceRefresh now2 w)"

text \<open>The two handlers that settle the promise of an operation.\<close>

definition then_store :: "nat \<Rightarrow> FronteggUserData \<Rightarrow> world \<Rightarrow> world" where
  "then_store p u w =
     w \<lparr> cl := (cl w) \<lparr> userData := Some u, userDataPromise := None \<rparr>,
         ops := filter (\<lambda>(q, st). q \<noteq> p) (ops w),
         settled := settled w @ [(p, Inr u)] \<rparr>"

definition catch_clear :: "nat \<Rightarrow> error \<Rightarrow> world \<Rightarrow> world" where
  "catch_clear p e w =
     w \<lparr> cl := (cl w) \<lparr> userDataPromise := None \<rparr>,
         ops := filter (\<lambda>(q, st). q \<noteq> p) (ops w),
         settled := settled w @ [(p, Inl e)] \<rparr>"

definition set_stage :: "nat \<Rightarrow> stage \<Rightarrow> (nat \<times> stage) list \<Rightarrow> (nat \<times> stage) list" where
  "set_stage p st os = map (\<lambda>(q, s). if q = p then (q, st) else (q, s)) os"

text \<open>
  The events of the loop: a call of \<open>getUserData\<close>; the response to the token request of
  an operation; the handler that calls \<open>fetchUserData\<close>; the response to the profile
  request of an operation; and a call of one of the two public exchanges, taken at the
  moment its response is handled, where it writes the client.
\<close>

datatype event =
    CallGetUserData bool int int
  | TokenResponse nat fetched int
  | ThenFetchUserData nat
  | ProfileResponse nat fetched
  | CallByOAuthCode string fetched int
  | CallByOAuthRefreshToken string fetched int

fun step :: "event \<Rightarrow> world \<Rightarrow> world option" where
  "step (CallGetUserData forceRefresh now1 now2) w =
     Some (snd (getUserData forceRefresh now1 now2 w))"
| "step (TokenResponse p f now) w =
     (case map_of (ops w) p of
        Some AwaitingCookie \<Rightarrow>
          (case fetchAccessTokenByCookie f now (cl w) of
             (Inr tok, c') \<Rightarrow> Some (w \<lparr> cl := c', ops := set_stage p (HasToken tok) (ops w) \<rparr>)
           | (Inl e, c') \<Rightarrow> Some (catch_clear p e (w \<lparr> cl := c' \<rparr>)))
      | Some AwaitingRefresh \<Rightarrow>
          (case fetchAccessTokenByOAuthRefreshToken f now (cl w) of
             (Inr tok, c') \<Rightarrow> Some (w \<lparr> cl := c', ops := set_stage p (HasToken tok) (ops w) \<rparr>)
           | (Inl e, c') \<Rightarrow> Some (catch_clear p e (w \<lparr> cl := c' \<rparr>)))
      | _ \<Rightarrow> None)"
| "step (ThenFetchUserData p) w =
     (case map_of (ops w) p of
        Some (HasToken tok) \<Rightarrow>
          Some (w \<lparr> ops := set_stage p (AwaitingProfile tok) (ops w),
                    sent := sent w @ [fetchUserData_request tok (cl w)] \<rparr>)
      | _ \<Rightarrow> None)"
| "step (ProfileResponse p f) w =
     (case map_of (ops w) p of
        Some (AwaitingProfile tok) \<Rightarrow>
          (case fetchUserData tok f (cl w) of
             Inr u \<Rightarrow> Some (then_store p u w)
           | Inl e \<Rightarrow> Some (catch_clear p e w))
      | _ \<Rightarrow> None)"
| "step (CallByOAuthCode oauthCode f now) w =
     (case fetchAccessTokenByOAuthCode oauthCode f now (cl w) (br w) of
        (r, c', b') \<Rightarrow>
          Some (w \<lparr> cl := c', br := b',
                    sent := sent w @ [fst (fetchAccessTokenByOAuthCode_request oauthCode (cl w) (br w))] \<rparr>))"
| "step (CallByOAuthRefreshToken refresh f now) w =
     (case fetchAccessTokenByOAuthRefreshToken f now (cl w) of
        (r, c') \<Rightarrow>
          Some (w \<lparr> cl := c',
                    sent := sent w @ [fetchAccessTokenByOAuthRefreshToken_request refresh (cl w)] \<rparr>))"

text \<open>A new client in a browser, and the worlds that events lead to from there.\<close>

definition initial :: "config \<Rightarrow> browser \<Rightarrow> world" where
  "initial cfg b =
     \<lparr> cl = constructor cfg, br = b, ops = [], next_id = 0, sent = [], settled = [] \<rparr>"

inductive reachable :: "world \<Rightarrow> bool" where
  reachable_initial: "reachable (initial cfg b)"
| reachable_step: "reachable w \<Longrightarrow> step e w = Some w' \<Longrightarrow> reachable w'"

text \<open>
  \<open>await client.getUserData(..)\<close> with no other event until the returned promise
  settles: the operation gets \<open>tf\<close> from its token request (if it sends one), stores the
  tokens at time \<open>now3\<close>, and gets \<open>pf\<close> from its profile request (if it sends one). The
  result is the profile or the error, and the world at that moment.
\<close>

definition then_profile :: "nat \<Rightarrow> fetched \<Rightarrow> world \<Rightarrow> world option" where
  "then_profile p pf w =
     (case step (ThenFetchUserData p) w of
        None \<Rightarrow> None
      | Some w1 \<Rightarrow> step (ProfileResponse p pf) w1)"

definition settle :: "nat \<Rightarrow> fetched \<Rightarrow> int \<Rightarrow> fetched \<Rightarrow> world \<Rightarrow> world option" where
  "settle p tf now3 pf w =
     (case map_of (ops w) p of
        None \<Rightarrow> None
      | Some (AwaitingProfile tok) \<Rightarrow> step (ProfileResponse p pf) w
      | Some (HasToken tok) \<Rightarrow> then_profile p pf w
      | Some st \<Rightarrow>
          (case step (TokenResponse p tf now3) w of
             None \<Rightarrow> None
           | Some w1 \<Rightarrow>
               if map_of (ops w1) p = None then Some w1 else then_profile p pf w1))"

definition await_getUserData ::
    "bool \<Rightarrow> int \<Rightarrow> int \<Rightarrow> fetched \<Rightarrow> int \<Rightarrow> fetched \<Rightarrow> world
       \<Rightarrow> ((error + FronteggUserData) \<times> world) option" where
  "await_getUserData forceRefresh now1 now2 tf now3 pf w =
     (case getUserData forceRefresh now1 now2 w of
        (Profile u, w1) \<Rightarrow> Some (Inr u, w1)
      | (Promise p, w1) \<Rightarrow>
          (case settle p tf now3 pf w1 of
             None \<Rightarrow> None
           | Some w2 \<Rightarrow>
               (case map_of (settled w2) p of
                  None \<Rightarrow> None
                | Some r \<Rightarrow> Some (r, w2))))"


section \<open>The fixtures of the test suite\<close>

definition clientConfig :: config where
  "clientConfig =
     \<lparr> cfg_baseUrl = ''http://frontegg-test-instance.local'',
       cfg_clientId = ''test-client-id'',
       cfg_redirectUri = ''http://localhost:3000/oauth/callback'',
       cfg_logoutRedirectUri = ''http://localhost:3000'',
       cfg_userData = None,
       cfg_refreshToken = None,
       cfg_tokenExpirationTime = None \<rparr>"

definition FRONTEGG_RESPONSE :: json where
  "FRONTEGG_RESPONSE =
     JObj [(''token_type'', JStr ''Bearer''),
           (''access_token'', JStr ''test-access-token''),
           (''id_token'', JStr ''test-id-token''),
           (''refresh_token'', JStr ''test-refresh-token''),
           (''expires_in'', JNum 3600)]"

definition FRONTEGG_USER_DATA :: json where
  "FRONTEGG_USER_DATA =
     JObj [(''id'', JStr ''test-user-id''),
           (''email'', JStr ''test@lokalise.com''),
           (''name'', JStr ''dummy username''),
           (''profilePictureUrl'',
              JStr ''https://www.gravatar.com/avatar/00000000000000000000000000000000''),
           (''tenantId'', JStr ''test-tenant-id'')]"

definition USER_DATA :: FronteggUserData where
  "USER_DATA =
     \<lparr> externalUserId = ''test-user-id'',
       ud_accessToken = ''test-access-token'',
       ud_name = ''dummy username'',
       ud_email = ''test@lokalise.com'',
       profilePictureUrl =
         PicUrl ''https://www.gravatar.com/avatar/00000000000000000000000000000000'',
       externalWorkspaceId = ''test-tenant-id'' \<rparr>"

text \<open>\<open>HttpResponse.json(j)\<close> and \<open>EmptyResponse(code)\<close> as \<open>fetch\<close> delivers them.\<close>

definition HttpResponse_json :: "json \<Rightarrow> fetched" where
  "HttpResponse_json j =
     Responded \<lparr> res_status = 200, res_text = Some (JSON_stringify j),
                 res_json = Some j, res_trace_id = None \<rparr>"

definition EmptyResponse :: "nat \<Rightarrow> fetched" where
  "EmptyResponse code =
     Responded \<lparr> res_status = code, res_text = Some [], res_json = None,
                 res_trace_id = None \<rparr>"

text \<open>A browser with empty storage whose random indices are all 33 (the letter \<open>h\<close>).\<close>

definition test_browser :: browser where
  "test_browser = \<lparr> localStorage = Map.empty, random_index = (\<lambda>n. 33), drawn = 0 \<rparr>"

text \<open>
  The platform's parser on a string that is a serialized absolute http(s) URL with
  neither query nor fragment: such a URL is its own prefix. On any other string this
  stand-in gives \<open>None\<close>.
\<close>

definition serialized_URL :: "string \<Rightarrow> URL option" where
  "serialized_URL s =
     (if (starts_with s ''http://'' \<or> starts_with s ''https://'')
         \<and> CHR ''?'' \<notin> set s \<and> CHR ''#'' \<notin> set s
      then Some \<lparr> url_prefix = s, url_query = None, url_fragment = None, searchParams = [] \<rparr>
      else None)"


section \<open>Worlds and clients of the examples\<close>

text \<open>A session restored with a profile, an empty refresh token and expiration time 0.\<close>

definition restored_config :: config where
  "restored_config =
     clientConfig \<lparr> cfg_userData := Some USER_DATA, cfg_refreshToken := Some [],
                    cfg_tokenExpirationTime := Some 0 \<rparr>"

text \<open>A client restored with a profile and a token that expires far in the future.\<close>

definition cached_world :: world where
  "cached_world =
     initial (clientConfig \<lparr> cfg_userData := Some USER_DATA,
                              cfg_tokenExpirationTime := Some 10000000 \<rparr>) test_browser"

text \<open>
  A client restored with a profile (hence an access token), an expiration time and no
  refresh token.
\<close>

definition expired_no_refresh :: client where
  "expired_no_refresh =
     constructor (clientConfig \<lparr> cfg_userData := Some USER_DATA,
                                  cfg_tokenExpirationTime := Some 3600000 \<rparr>)"

text \<open>What the platform's parser makes of the logout URL of the test configuration.\<close>

definition logout_URL :: URL where
  "logout_URL =
     \<lparr> url_prefix = ''http://frontegg-test-instance.local/frontegg/oauth/logout'',
       url_query = None, url_fragment = None, searchParams = [] \<rparr>"

text \<open>
  Two bodies that the token schema rejects, one naming a token field and one not, and the
  issues the schema raises on them (\<open>received\<close> is the type found at \<open>access_token\<close>).
\<close>

definition leaky_payload :: json where
  "leaky_payload = JObj [(''access_token'', JNum 3)]"

definition harmless_payload :: json where
  "harmless_payload = JObj [(''foo'', JNum 3)]"

definition payload_issues :: "string \<Rightarrow> issue list" where
  "payload_issues received =
     [Issue [''token_type''] ''string'' ''undefined'',
      Issue [''access_token''] ''string'' received,
      Issue [''id_token''] ''string'' ''undefined'',
      Issue [''refresh_token''] ''string'' ''undefined'',
      Issue [''expires_in''] ''number'' ''undefined'']"

section \<open>The code challenge as the specification words it\<close>

text \<open>
  Base64url as the specification describes the code challenge: base64 over the alphabet
  that has \<open>-\<close> and \<open>_\<close> in the places of \<open>+\<close> and \<open>/\<close>, with no padding. It is
  compared below with what \<open>getOAuthLoginUrl\<close> computes.
\<close>

definition base64url_alphabet :: string where
  "base64url_alphabet = ''ABCDEFGHIJKLMNOPQRSTUVWXYZabcdefghijklmnopqrstuvwxyz0123456789-_''"

definition b64url :: "nat \<Rightarrow> char" where
  "b64url n = base64url_alphabet ! (n mod 64)"

fun base64url_spec :: "string \<Rightarrow> string" where
  "base64url_spec [] = []"
| "base64url_spec [a] =
     (let x = (of_char a :: nat)
      in [b64url (x div 4), b64url ((x mod 4) * 16)])"
| "base64url_spec [a, b] =
     (let x = (of_char a :: nat); y = (of_char b :: nat)
      in [b64url (x div 4), b64url ((x mod 4) * 16 + y div 16), b64url ((y mod 16) * 4)])"
| "base64url_spec (a # b # c # rest) =
     (let x = (of_char a :: nat); y = (of_char b :: nat); z = (of_char c :: nat)
      in [b64url (x div 4), b64url ((x mod 4) * 16 + y div 16),
          b64url ((y mod 16) * 4 + z div 64), b64url (z mod 64)] @ base64url_spec rest)"

text \<open>The three replacements that \<open>getOAuthLoginUrl\<close> applies to the result of \<open>btoa\<close>.\<close>

definition url_safe :: "string \<Rightarrow> string" where
  "url_safe s =
     replace_all CHR ''/'' ''_'' (replace_all CHR ''+'' ''-'' (replace_all CHR ''='' [] s))"

text \<open>
  SHA-256 on the one verifier of the examples (its true digest); elsewhere this stand-in
  gives the empty string.
\<close>

definition test_SHA_256 :: "string \<Rightarrow> string" where
  "test_SHA_256 s =
     (if s = ''hhhhhhhhhhhhhhhh''
      then [CHR 0xAF, CHR 0x34, CHR 0x2A, CHR 0xD0, CHR 0x0E, CHR 0xE4, CHR 0xEA,
           CHR 0xE5, CHR 0x98, CHR 0x58, CHR 0xED, CHR 0xAF, CHR 0x58, CHR 0x2F,
           CHR 0x50, CHR 0xA4, CHR 0x2C, CHR 0xE1, CHR 0x6F, CHR 0xEF, CHR 0xFF,
           CHR 0xA7, CHR 0x47, CHR 0x9B, CHR 0x5B, CHR 0x14, CHR 0x19, CHR 0xDD,
           CHR 0xB7, CHR 0xA1, CHR 0xE4, CHR 0x32]
      else [])"

text \<open>What the platform's parser makes of the login URL of the test configuration.\<close>

definition authorize_URL :: URL where
  "authorize_URL =
     \<lparr> url_prefix = ''http://frontegg-test-instance.local/frontegg/oauth/authorize'',
       url_query = None, url_fragment = None, searchParams = [] \<rparr>"

section \<open>The invariant of the slot\<close>

text \<open>
  The operations in flight are exactly the one whose promise the slot
  \<open>userDataPromise\<close> holds (none when the slot is empty); identities in use are below
  \<open>next_id\<close>; no promise has settled twice, and none in flight has settled.
\<close>

definition single_flight :: "world \<Rightarrow> bool" where
  "single_flight w =
     (map fst (ops w) = (case userDataPromise (cl w) of None \<Rightarrow> [] | Some p \<Rightarrow> [p])
      \<and> list_all (\<lambda>p. p < next_id w) (map fst (ops w))
      \<and> list_all (\<lambda>p. p < next_id w) (map fst (settled w))
      \<and> distinct (map fst (settled w))
      \<and> list_all (\<lambda>p. p \<notin> set (map fst (settled w))) (map fst (ops w)))"

text \<open>
  The world after \<open>getUserData({forceRefresh: true})\<close> on the client with a cached
  profile and a token that is not expired: the operation is pending.
\<close>

definition pending_world :: world where
  "pending_world = snd (getUserData True 1000 1000 cached_world)"

text \<open>A new client of the test configuration, and the error of an empty 401 on the profile request.\<close>

definition fresh_world :: world where
  "fresh_world = initial clientConfig test_browser"

definition unauthorized :: error where
  "unauthorized =
     Frontegg \<lparr> fe_text = ''Error while fetching Frontegg endpoint.'',
                fe_status = 401,
                fe_url = ''http://frontegg-test-instance.local/frontegg/identity/resources/users/v2/me'',
                fronteggTraceId = ''undefined'',
                fe_body = Body (JStr ''Error while fetching Frontegg endpoint.'') \<rparr>"

section \<open>Runs of events and the token an operation waits for\<close>

text \<open>
  What an operation at a given stage gets as its access token once the response \<open>tf\<close>
  to its token request is handled at time \<open>now\<close>: the result of the exchange it waits
  for, or the token it already has (then no exchange is made and the client stays).
\<close>

fun token_exchange :: "stage \<Rightarrow> fetched \<Rightarrow> int \<Rightarrow> client \<Rightarrow> (error + string) \<times> client" where
  "token_exchange AwaitingCookie tf now c = fetchAccessTokenByCookie tf now c"
| "token_exchange AwaitingRefresh tf now c = fetchAccessTokenByOAuthRefreshToken tf now c"
| "token_exchange (HasToken tok) tf now c = (Inr tok, c)"
| "token_exchange (AwaitingProfile tok) tf now c = (Inr tok, c)"

text \<open>A list of events handled one after the other; \<open>None\<close> when one of them is not enabled.\<close>

fun run :: "event list \<Rightarrow> world \<Rightarrow> world option" where
  "run [] w = Some w"
| "run (e # es) w = (case step e w of None \<Rightarrow> None | Some w1 \<Rightarrow> run es w1)"

text \<open>The world after \<open>getUserData()\<close> on a new client: the silent exchange is pending.\<close>

definition started_world :: world where
  "started_world = snd (getUserData False 0 0 fresh_world)"

text \<open>
  A configuration whose base URL has a query, what the platform's parser makes of its
  login URL (the query runs to the end of the string and holds one parameter), and the
  platform's parser on the URLs of the examples.
\<close>

definition query_config :: config where
  "query_config = clientConfig \<lparr> cfg_baseUrl := ''http://frontegg-test-instance.local/?tenant=a'' \<rparr>"

definition query_URL :: URL where
  "query_URL =
     \<lparr> url_prefix = ''http://frontegg-test-instance.local/'',
       url_query = Some ''tenant=a/frontegg/oauth/authorize'',
       url_fragment = None,
       searchParams = [(''tenant'', ''a/frontegg/oauth/authorize'')] \<rparr>"

definition test_new_URL :: "string \<Rightarrow> URL option" where
  "test_new_URL s =
     (if s = ''http://frontegg-test-instance.local/?tenant=a/frontegg/oauth/authorize''
      then Some query_URL
      else serialized_URL s)"

section \<open>The expiration policy\<close>

text \<open>
  C4, as stated: the token counts as expired exactly when \<open>now \<ge> t - 3600000\<close>. It
  fails at the boundary: with \<open>t = 7200000\<close> and \<open>now = 3600000 = t - 3600000\<close> the
  comparison \<open>t - 3600000 < now\<close> of \<open>isTokenExpired\<close> is false, so the token is not
  considered expired.
\<close>

theorem isTokenExpired_boundary_counterexample:
  "\<not> (isTokenExpired (Some 7200000) 3600000 \<longleftrightarrow> (3600000::int) \<ge> 7200000 - 3600000)"
  by (simp add: isTokenExpired_def)

text \<open>
  C4, amended: a token with no recorded expiration time (\<open>null\<close>, and also the falsy
  time \<open>0\<close>) is always considered expired; a token with recorded time \<open>t\<close> is considered
  expired exactly when \<open>t\<close> is \<open>0\<close> or \<open>now > t - 3600000\<close>; at the boundary instant
  \<open>now = t - 3600000\<close> a token with \<open>t \<noteq> 0\<close> is not yet considered expired.
\<close>

theorem isTokenExpired_policy:
  "isTokenExpired None now
   \<and> isTokenExpired (Some t) now = (t = 0 \<or> t - 3600000 < now)
   \<and> isTokenExpired (Some t) (t - 3600000) = (t = 0)"
  by (simp add: isTokenExpired_def)

theorem isTokenExpired_policy_witness:
  "isTokenExpired None 5
   \<and> isTokenExpired (Some 7200000) 3600001
   \<and> \<not> isTokenExpired (Some 7200000) 3600000
   \<and> isTokenExpired (Some 0) (- 7200000)"
  using isTokenExpired_policy [where now = 5]
    isTokenExpired_policy [where now = 3600001 and t = 7200000]
    isTokenExpired_policy [where t = 7200000] isTokenExpired_policy [where now = "- 7200000" and t = 0]
  by simp

section \<open>The constructor\<close>

text \<open>
  C10: the initial access token is the \<open>accessToken\<close> of the configured profile and
  nothing else (there is none without a profile: the configuration has no access token
  field of its own); a configured expiration time of \<open>0\<close> leaves the field \<open>null\<close>, so
  the token is considered expired at every time \<open>now\<close>; a configured empty refresh
  token leaves the field \<open>null\<close>.
\<close>

theorem constructor_restores_session:
  "accessToken (constructor cfg) = map_option ud_accessToken (cfg_userData cfg)
   \<and> userData (constructor cfg) = cfg_userData cfg
   \<and> (cfg_tokenExpirationTime cfg = Some 0 \<longrightarrow>
        tokenExpirationTime (constructor cfg) = None
        \<and> isTokenExpired (tokenExpirationTime (constructor cfg)) now)
   \<and> (cfg_refreshToken cfg = Some [] \<longrightarrow> refreshToken (constructor cfg) = None)"
  by (simp add: constructor_def Let_def isTokenExpired_def split: option.splits)

theorem constructor_restores_session_witness:
  "cfg_userData restored_config = Some USER_DATA
   \<and> cfg_tokenExpirationTime restored_config = Some 0
   \<and> cfg_refreshToken restored_config = Some []
   \<and> accessToken (constructor restored_config) = Some ''test-access-token''
   \<and> tokenExpirationTime (constructor restored_config) = None
   \<and> refreshToken (constructor restored_config) = None
   \<and> isTokenExpired (tokenExpirationTime (constructor restored_config)) 1000"
  using constructor_restores_session [of restored_config 1000]
  by (simp add: restored_config_def clientConfig_def USER_DATA_def isTokenExpired_def)

section \<open>The cached profile\<close>

text \<open>
  C5: when the client holds a profile and its token is not expired, \<open>getUserData\<close>
  with \<open>forceRefresh\<close> false gives the cached profile and leaves the whole world as it
  was: the token fields, the profile, the slot \<open>userDataPromise\<close>, and the list of
  requests sent (no network I/O). Awaiting it gives that profile whatever the network
  would answer.
\<close>

theorem getUserData_cached:
  assumes "userData (cl w) = Some u"
    and "\<not> isTokenExpired (tokenExpirationTime (cl w)) now1"
  shows "getUserData False now1 now2 w = (Profile u, w)
         \<and> await_getUserData False now1 now2 tf now3 pf w = Some (Inr u, w)"
  using assms by (simp add: getUserData_def await_getUserData_def)

theorem getUserData_cached_witness:
  "userData (cl cached_world) = Some USER_DATA
   \<and> \<not> isTokenExpired (tokenExpirationTime (cl cached_world)) 1000
   \<and> getUserData False 1000 1001 cached_world = (Profile USER_DATA, cached_world)
   \<and> await_getUserData False 1000 1001 FailedToFetch 1002 FailedToFetch cached_world
       = Some (Inr USER_DATA, cached_world)"
proof -
  have u: "userData (cl cached_world) = Some USER_DATA"
    by (simp add: cached_world_def initial_def constructor_def clientConfig_def)
  have e: "\<not> isTokenExpired (tokenExpirationTime (cl cached_world)) 1000"
    by (simp add: cached_world_def initial_def constructor_def clientConfig_def isTokenExpired_def)
  show ?thesis
    using u e getUserData_cached [OF u e, of 1001 FailedToFetch 1002 FailedToFetch] by simp
qed

section \<open>An expired token without a refresh token\<close>

text \<open>
  C3, as stated: with a cached access token that is considered expired and no refresh
  token, resolving the access token performs the silent exchange and does not return the
  expired token. It fails: \<open>getAccessToken\<close> sends no request and gives the cached
  token.
\<close>

theorem getAccessToken_expired_no_refresh_counterexample:
  "accessToken expired_no_refresh = Some ''test-access-token''
   \<and> isTokenExpired (tokenExpirationTime expired_no_refresh) 7200000
   \<and> refreshToken expired_no_refresh = None
   \<and> getAccessToken False 7200000 expired_no_refresh = (HasToken ''test-access-token'', [])
   \<and> fst (getAccessToken False 7200000 expired_no_refresh) \<noteq> AwaitingCookie"
  by (simp add: expired_no_refresh_def constructor_def clientConfig_def USER_DATA_def
      isTokenExpired_def getAccessToken_def)

text \<open>
  C3, amended: with a cached (non-empty) access token that is considered expired and no
  refresh token (\<open>null\<close> or empty), \<open>getAccessToken\<close> sends no request and returns the
  cached access token, whatever \<open>forceRefresh\<close> is. In any state, \<open>getAccessToken\<close>
  turns to the silent exchange exactly when no (non-empty) access token is cached.
\<close>

theorem getAccessToken_expired_no_refresh:
  assumes "accessToken c = Some a" and "a \<noteq> []"
    and "isTokenExpired (tokenExpirationTime c) now"
    and "\<not> truthy_str (refreshToken c)"
  shows "getAccessToken forceRefresh now c = (HasToken a, [])
       \<and> (fst (getAccessToken forceRefresh' now' c') = AwaitingCookie)
           = (\<not> truthy_str (accessToken c'))"
  using assms by (simp add: getAccessToken_def)

theorem getAccessToken_expired_no_refresh_witness:
  "accessToken expired_no_refresh = Some ''test-access-token''
   \<and> ''test-access-token'' \<noteq> []
   \<and> isTokenExpired (tokenExpirationTime expired_no_refresh) 7200000
   \<and> \<not> truthy_str (refreshToken expired_no_refresh)
   \<and> getAccessToken True 7200000 expired_no_refresh = (HasToken ''test-access-token'', [])"
proof -
  have a: "accessToken expired_no_refresh = Some ''test-access-token''"
    by (simp add: expired_no_refresh_def constructor_def clientConfig_def USER_DATA_def)
  have n: "''test-access-token'' \<noteq> []" by simp
  have e: "isTokenExpired (tokenExpirationTime expired_no_refresh) 7200000"
    by (simp add: expired_no_refresh_def constructor_def clientConfig_def isTokenExpired_def)
  have r: "\<not> truthy_str (refreshToken expired_no_refresh)"
    by (simp add: expired_no_refresh_def constructor_def clientConfig_def)
  show ?thesis
    using a e r getAccessToken_expired_no_refresh [OF a n e r, where forceRefresh = True] by simp
qed

section \<open>Substrings\<close>

text \<open>\<open>str_includes s k\<close> holds exactly when \<open>k\<close> is a contiguous part of \<open>s\<close>.\<close>

lemma starts_with_iff: "starts_with s k \<longleftrightarrow> (\<exists>q. s = k @ q)"
  by (induction s k rule: starts_with.induct) auto

lemma str_includes_iff: "str_includes s k \<longleftrightarrow> (\<exists>p q. s = p @ k @ q)"
proof (induction s)
  case Nil
  then show ?case by (cases k) auto
next
  case (Cons c cs)
  show ?case
  proof
    assume "str_includes (c # cs) k"
    then consider "starts_with (c # cs) k" | "str_includes cs k" by auto
    then show "\<exists>p q. c # cs = p @ k @ q"
    proof cases
      case 1
      then obtain q where "c # cs = k @ q" using starts_with_iff by blast
      then have "c # cs = [] @ k @ q" by simp
      then show ?thesis by blast
    next
      case 2
      then obtain p q where "cs = p @ k @ q" using Cons.IH by blast
      then have "c # cs = (c # p) @ k @ q" by simp
      then show ?thesis by blast
    qed
  next
    assume "\<exists>p q. c # cs = p @ k @ q"
    then obtain p q where pq: "c # cs = p @ k @ q" by blast
    show "str_includes (c # cs) k"
    proof (cases p)
      case Nil
      with pq have "starts_with (c # cs) k" using starts_with_iff by auto
      then show ?thesis by simp
    next
      case (Cons a p')
      with pq have "cs = p' @ k @ q" by simp
      then have "str_includes cs k" using Cons.IH by blast
      then show ?thesis by simp
    qed
  qed
qed

section \<open>The two public token exchanges\<close>

lemma token_exchange_url: "req_url (fst (fetchAccessTokenByOAuthCode_request oauthCode c b)) = baseUrl c @ ''/frontegg/oauth/token''"
  by (simp add: fetchAccessTokenByOAuthCode_request_def split: prod.splits)

lemma token_exchange_browser: "snd (fetchAccessTokenByOAuthCode_request oauthCode c b) = snd (getCodeVerifier b)"
  by (simp add: fetchAccessTokenByOAuthCode_request_def split: prod.splits)

text \<open>
  C6: on a response of status 200 whose body is a valid token payload (the schema
  accepts it as \<open>data\<close>), \<open>fetchAccessTokenByOAuthCode\<close> and
  \<open>fetchAccessTokenByOAuthRefreshToken\<close> each return \<open>access_token data\<close> and store
  the access token, the refresh token and the expiration time \<open>now + expires_in * 1000\<close>;
  on an empty response of status 401 each throws the \<open>FronteggError\<close> of status 401
  with the default message, and leaves the client as it was.
\<close>

theorem token_exchanges_200_and_401:
  assumes "res_status r = 200" and "res_json r = Some j"
    and "GET_FRONTEGG_TOKEN_RESPONSE_SCHEMA_parse j = Inr data"
  shows "fetchAccessTokenByOAuthCode oauthCode (Responded r) now c b =
           (Inr (access_token data),
            c \<lparr> accessToken := Some (access_token data),
                refreshToken := Some (refresh_token data),
                tokenExpirationTime := Some (now + expires_in data * 1000) \<rparr>,
            snd (getCodeVerifier b))
       \<and> fetchAccessTokenByOAuthRefreshToken (Responded r) now c =
           (Inr (access_token data),
            c \<lparr> accessToken := Some (access_token data),
                refreshToken := Some (refresh_token data),
                tokenExpirationTime := Some (now + expires_in data * 1000) \<rparr>)
       \<and> fetchAccessTokenByOAuthCode oauthCode (EmptyResponse 401) now c b =
           (Inl (Frontegg \<lparr> fe_text = ''Error while fetching Frontegg endpoint.'',
                            fe_status = 401,
                            fe_url = baseUrl c @ ''/frontegg/oauth/token'',
                            fronteggTraceId = ''undefined'',
                            fe_body = Body (JStr ''Error while fetching Frontegg endpoint.'') \<rparr>),
            c, snd (getCodeVerifier b))
       \<and> fetchAccessTokenByOAuthRefreshToken (EmptyResponse 401) now c =
           (Inl (Frontegg \<lparr> fe_text = ''Error while fetching Frontegg endpoint.'',
                            fe_status = 401,
                            fe_url = baseUrl c @ ''/frontegg/oauth/token'',
                            fronteggTraceId = ''undefined'',
                            fe_body = Body (JStr ''Error while fetching Frontegg endpoint.'') \<rparr>),
            c)"
proof -
  have ok: "res_ok r" using assms(1) by (simp add: res_ok_def)
  have a: "fetchWithAssert u (Responded r) = Inr r" for u
    using ok by (simp add: fetchWithAssert_def)
  have e: "fetchWithAssert u (EmptyResponse 401) =
    Inl (Frontegg \<lparr> fe_text = ''Error while fetching Frontegg endpoint.'',
                            fe_status = 401,
                            fe_url = u,
                            fronteggTraceId = ''undefined'',
                            fe_body = Body (JStr ''Error while fetching Frontegg endpoint.'') \<rparr>)" for u
    by (simp add: fetchWithAssert_def EmptyResponse_def res_ok_def defaultMessage_def)
  have 1: "fetchAccessTokenByOAuthCode oauthCode (Responded r) now c b =
           (Inr (access_token data),
            c \<lparr> accessToken := Some (access_token data),
                refreshToken := Some (refresh_token data),
                tokenExpirationTime := Some (now + expires_in data * 1000) \<rparr>,
            snd (getCodeVerifier b))"
    using assms(2,3) token_exchange_url [of oauthCode c b] token_exchange_browser [of oauthCode c b]
    by (cases "fetchAccessTokenByOAuthCode_request oauthCode c b")
      (simp add: fetchAccessTokenByOAuthCode_def a calculateTokenExpirationTime_def)
  have 2: "fetchAccessTokenByOAuthRefreshToken (Responded r) now c =
           (Inr (access_token data),
            c \<lparr> accessToken := Some (access_token data),
                refreshToken := Some (refresh_token data),
                tokenExpirationTime := Some (now + expires_in data * 1000) \<rparr>)"
    using assms(2,3)
    by (simp add: fetchAccessTokenByOAuthRefreshToken_def a calculateTokenExpirationTime_def)
  have 3: "fetchAccessTokenByOAuthCode oauthCode (EmptyResponse 401) now c b =
           (Inl (Frontegg \<lparr> fe_text = ''Error while fetching Frontegg endpoint.'',
                            fe_status = 401,
                            fe_url = baseUrl c @ ''/frontegg/oauth/token'',
                            fronteggTraceId = ''undefined'',
                            fe_body = Body (JStr ''Error while fetching Frontegg endpoint.'') \<rparr>),
            c, snd (getCodeVerifier b))"
    using token_exchange_url [of oauthCode c b] token_exchange_browser [of oauthCode c b]
    by (cases "fetchAccessTokenByOAuthCode_request oauthCode c b")
      (simp add: fetchAccessTokenByOAuthCode_def e)
  have 4: "fetchAccessTokenByOAuthRefreshToken (EmptyResponse 401) now c =
           (Inl (Frontegg \<lparr> fe_text = ''Error while fetching Frontegg endpoint.'',
                            fe_status = 401,
                            fe_url = baseUrl c @ ''/frontegg/oauth/token'',
                            fronteggTraceId = ''undefined'',
                            fe_body = Body (JStr ''Error while fetching Frontegg endpoint.'') \<rparr>),
            c)"
    by (simp add: fetchAccessTokenByOAuthRefreshToken_def e)
  from 1 2 3 4 show ?thesis by blast
qed

theorem token_exchanges_200_and_401_witness:
  "res_status \<lparr> res_status = 200, res_text = None, res_json = Some FRONTEGG_RESPONSE,
                 res_trace_id = None \<rparr> = 200
   \<and> res_json \<lparr> res_status = 200, res_text = None, res_json = Some FRONTEGG_RESPONSE,
                 res_trace_id = None \<rparr> = Some FRONTEGG_RESPONSE
   \<and> GET_FRONTEGG_TOKEN_RESPONSE_SCHEMA_parse FRONTEGG_RESPONSE =
       Inr \<lparr> token_type = ''Bearer'', access_token = ''test-access-token'',
             id_token = ''test-id-token'', refresh_token = ''test-refresh-token'',
             expires_in = 3600 \<rparr>
   \<and> fst (fetchAccessTokenByOAuthCode ''test-oauth-code''
            (Responded \<lparr> res_status = 200, res_text = None, res_json = Some FRONTEGG_RESPONSE,
                         res_trace_id = None \<rparr>) 1000 (constructor clientConfig) test_browser)
       = Inr ''test-access-token''
   \<and> fetchAccessTokenByOAuthRefreshToken
            (Responded \<lparr> res_status = 200, res_text = None, res_json = Some FRONTEGG_RESPONSE,
                         res_trace_id = None \<rparr>) 1000 (constructor clientConfig)
       = (Inr ''test-access-token'',
          (constructor clientConfig) \<lparr> accessToken := Some ''test-access-token'',
             refreshToken := Some ''test-refresh-token'',
             tokenExpirationTime := Some 3601000 \<rparr>)"
proof -
  let ?r = "\<lparr> res_status = 200, res_text = None, res_json = Some FRONTEGG_RESPONSE,
                 res_trace_id = None \<rparr>"
  let ?d = "\<lparr> token_type = ''Bearer'', access_token = ''test-access-token'',
             id_token = ''test-id-token'', refresh_token = ''test-refresh-token'',
             expires_in = 3600 \<rparr>"
  have s: "res_status ?r = 200" by simp
  have j: "res_json ?r = Some FRONTEGG_RESPONSE" by simp
  have p: "GET_FRONTEGG_TOKEN_RESPONSE_SCHEMA_parse FRONTEGG_RESPONSE = Inr ?d"
    by (simp add: GET_FRONTEGG_TOKEN_RESPONSE_SCHEMA_parse_def FRONTEGG_RESPONSE_def)
  show ?thesis
    using p token_exchanges_200_and_401 [OF s j p, of "''test-oauth-code''" 1000
        "constructor clientConfig" test_browser]
    by simp
qed

section \<open>The logout URL\<close>

lemma urlencoded_param_name: "urlencoded_string ''post_logout_redirect_uri'' = ''post_logout_redirect_uri''"
  by code_simp

text \<open>
  C7, as stated: the result is \<open>baseUrl\<close> followed by
  \<open>/oauth/logout?post_logout_redirect_uri=\<close> and the encoded redirect. It fails on the
  configuration of the test suite: the path that \<open>getOAuthLogoutUrl\<close> appends to
  \<open>baseUrl\<close> is \<open>/frontegg/oauth/logout\<close>.
\<close>

theorem getOAuthLogoutUrl_counterexample:
  "getOAuthLogoutUrl serialized_URL (constructor clientConfig) =
     Inr ''http://frontegg-test-instance.local/frontegg/oauth/logout?post_logout_redirect_uri=http%3A%2F%2Flocalhost%3A3000''
   \<and> getOAuthLogoutUrl serialized_URL (constructor clientConfig) \<noteq>
     Inr (baseUrl (constructor clientConfig) @ ''/oauth/logout?post_logout_redirect_uri=''
          @ urlencoded_string (logoutRedirectUri (constructor clientConfig)))"
  by code_simp

text \<open>
  C7, amended: when the platform parses \<open>baseUrl\<close> followed by
  \<open>/frontegg/oauth/logout\<close> to a URL that is that very string, with no query and no
  fragment, \<open>getOAuthLogoutUrl\<close> returns exactly that string followed by
  \<open>?post_logout_redirect_uri=\<close> and the configured logout redirect in
  \<open>application/x-www-form-urlencoded\<close> form. It takes the client and gives a string:
  it reads no world and changes none.
\<close>

theorem getOAuthLogoutUrl_exact:
  assumes "new_URL (baseUrl c @ ''/frontegg/oauth/logout'') = Some u"
    and "url_prefix u = baseUrl c @ ''/frontegg/oauth/logout''"
    and "searchParams u = []"
    and "url_fragment u = None"
  shows "getOAuthLogoutUrl new_URL c =
           Inr (baseUrl c @ ''/frontegg/oauth/logout?post_logout_redirect_uri=''
                @ urlencoded_string (logoutRedirectUri c))"
  using assms
  by (simp add: getOAuthLogoutUrl_def searchParams_set_def URL_toString_def
      urlencoded_serialize_def urlencoded_param_name)

theorem getOAuthLogoutUrl_exact_witness:
  "serialized_URL (baseUrl (constructor clientConfig) @ ''/frontegg/oauth/logout'') = Some logout_URL
   \<and> url_prefix logout_URL = baseUrl (constructor clientConfig) @ ''/frontegg/oauth/logout''
   \<and> searchParams logout_URL = []
   \<and> url_fragment logout_URL = None
   \<and> getOAuthLogoutUrl serialized_URL (constructor clientConfig) =
       Inr ''http://frontegg-test-instance.local/frontegg/oauth/logout?post_logout_redirect_uri=http%3A%2F%2Flocalhost%3A3000''"
proof -
  have a: "serialized_URL (baseUrl (constructor clientConfig) @ ''/frontegg/oauth/logout'') = Some logout_URL"
    by code_simp
  have b: "url_prefix logout_URL = baseUrl (constructor clientConfig) @ ''/frontegg/oauth/logout''"
    by code_simp
  have c: "searchParams logout_URL = []" by (simp add: logout_URL_def)
  have d: "url_fragment logout_URL = None" by (simp add: logout_URL_def)
  have e: "urlencoded_string (logoutRedirectUri (constructor clientConfig)) = ''http%3A%2F%2Flocalhost%3A3000''"
    by code_simp
  have f: "baseUrl (constructor clientConfig) = ''http://frontegg-test-instance.local''"
    by code_simp
  show ?thesis
    using a b c d
      getOAuthLogoutUrl_exact [where new_URL = serialized_URL and c = "constructor clientConfig"
        and u = logout_URL, OF a b c d]
    unfolding e f by simp
qed

section \<open>The diagnostic error of the silent exchange\<close>

lemma notice_has_no_key:
  "\<not> list_ex (str_includes (JSON_stringify (JStr ''Response body contains sensitive information.'')))
       sensitive_keys"
  by code_simp

lemma sensitive_keys_occur:
  "list_ex (str_includes s) sensitive_keys
     = (\<exists>key \<in> {''access_token'', ''id_token'', ''refresh_token''}. \<exists>p q. s = p @ key @ q)"
  by (simp add: sensitive_keys_def str_includes_iff)

text \<open>
  C8: when the silent exchange receives a response of success status whose body \<open>j\<close>
  fails the schema with issues \<open>err\<close>, it throws the \<open>FronteggError\<close> of status 500
  whose body is \<open>{response, error}\<close> with \<open>error = err\<close>, where \<open>response\<close> is the
  redaction notice if \<open>JSON.stringify(j)\<close> contains one of the token field names
  \<open>access_token\<close>, \<open>id_token\<close>, \<open>refresh_token\<close> and is \<open>j\<close> otherwise. So
  \<open>response\<close> is the raw body exactly when the serialized body contains none of these
  names, and a body in which one occurs is never included. The client is left as it was.
\<close>

theorem fetchAccessTokenByCookie_redaction:
  assumes "res_ok r" and "res_json r = Some j"
    and "GET_FRONTEGG_TOKEN_RESPONSE_SCHEMA_parse j = Inl err"
  shows "fetchAccessTokenByCookie (Responded r) now c =
           (Inl (Frontegg
              \<lparr> fe_text = ''Error while parsing Frontegg response.'',
                fe_status = 500,
                fe_url = baseUrl c @ ''/frontegg/oauth/authorize/silent'',
                fronteggTraceId = (case res_trace_id r of None \<Rightarrow> ''undefined'' | Some t \<Rightarrow> t),
                fe_body = ResponseAndError
                  (if list_ex (str_includes (JSON_stringify j)) sensitive_keys
                   then JStr ''Response body contains sensitive information.'' else j)
                  err \<rparr>), c)
       \<and> ((if list_ex (str_includes (JSON_stringify j)) sensitive_keys
            then JStr ''Response body contains sensitive information.'' else j) = j)
          = (\<not> list_ex (str_includes (JSON_stringify j)) sensitive_keys)
       \<and> list_ex (str_includes (JSON_stringify j)) sensitive_keys
          = (\<exists>key \<in> {''access_token'', ''id_token'', ''refresh_token''}.
               \<exists>p q. JSON_stringify j = p @ key @ q)"
proof -
  have 1: "fetchAccessTokenByCookie (Responded r) now c =
           (Inl (Frontegg
              \<lparr> fe_text = ''Error while parsing Frontegg response.'',
                fe_status = 500,
                fe_url = baseUrl c @ ''/frontegg/oauth/authorize/silent'',
                fronteggTraceId = (case res_trace_id r of None \<Rightarrow> ''undefined'' | Some t \<Rightarrow> t),
                fe_body = ResponseAndError
                  (if list_ex (str_includes (JSON_stringify j)) sensitive_keys
                   then JStr ''Response body contains sensitive information.'' else j)
                  err \<rparr>), c)"
    using assms by (simp add: fetchAccessTokenByCookie_def fetchWithAssert_def)
  have 2: "((if list_ex (str_includes (JSON_stringify j)) sensitive_keys
            then JStr ''Response body contains sensitive information.'' else j) = j)
          = (\<not> list_ex (str_includes (JSON_stringify j)) sensitive_keys)"
    using notice_has_no_key by auto
  from 1 2 sensitive_keys_occur [of "JSON_stringify j"] show ?thesis by blast
qed

theorem fetchAccessTokenByCookie_redaction_witness:
  "res_ok \<lparr> res_status = 200, res_text = None, res_json = Some leaky_payload, res_trace_id = None \<rparr>
   \<and> GET_FRONTEGG_TOKEN_RESPONSE_SCHEMA_parse leaky_payload = Inl (payload_issues ''number'')
   \<and> list_ex (str_includes (JSON_stringify leaky_payload)) sensitive_keys
   \<and> fetchAccessTokenByCookie
        (Responded \<lparr> res_status = 200, res_text = None, res_json = Some leaky_payload,
                     res_trace_id = None \<rparr>) 0 (constructor clientConfig) =
       (Inl (Frontegg
          \<lparr> fe_text = ''Error while parsing Frontegg response.'',
            fe_status = 500,
            fe_url = baseUrl (constructor clientConfig) @ ''/frontegg/oauth/authorize/silent'',
            fronteggTraceId = ''undefined'',
            fe_body = ResponseAndError (JStr ''Response body contains sensitive information.'')
                        (payload_issues ''number'') \<rparr>), constructor clientConfig)
   \<and> res_ok \<lparr> res_status = 200, res_text = None, res_json = Some harmless_payload, res_trace_id = None \<rparr>
   \<and> GET_FRONTEGG_TOKEN_RESPONSE_SCHEMA_parse harmless_payload = Inl (payload_issues ''undefined'')
   \<and> \<not> list_ex (str_includes (JSON_stringify harmless_payload)) sensitive_keys
   \<and> fetchAccessTokenByCookie
        (Responded \<lparr> res_status = 200, res_text = None, res_json = Some harmless_payload,
                     res_trace_id = None \<rparr>) 0 (constructor clientConfig) =
       (Inl (Frontegg
          \<lparr> fe_text = ''Error while parsing Frontegg response.'',
            fe_status = 500,
            fe_url = baseUrl (constructor clientConfig) @ ''/frontegg/oauth/authorize/silent'',
            fronteggTraceId = ''undefined'',
            fe_body = ResponseAndError harmless_payload (payload_issues ''undefined'') \<rparr>),
        constructor clientConfig)"
proof -
  let ?r1 = "\<lparr> res_status = 200, res_text = None, res_json = Some leaky_payload, res_trace_id = None \<rparr>"
  let ?r2 = "\<lparr> res_status = 200, res_text = None, res_json = Some harmless_payload, res_trace_id = None \<rparr>"
  have ok1: "res_ok ?r1" and ok2: "res_ok ?r2" by (simp_all add: res_ok_def)
  have j1: "res_json ?r1 = Some leaky_payload" and j2: "res_json ?r2 = Some harmless_payload"
    by simp_all
  have p1: "GET_FRONTEGG_TOKEN_RESPONSE_SCHEMA_parse leaky_payload = Inl (payload_issues ''number'')"
    by code_simp
  have p2: "GET_FRONTEGG_TOKEN_RESPONSE_SCHEMA_parse harmless_payload = Inl (payload_issues ''undefined'')"
    by code_simp
  have k1: "list_ex (str_includes (JSON_stringify leaky_payload)) sensitive_keys"
    by code_simp
  have k2: "\<not> list_ex (str_includes (JSON_stringify harmless_payload)) sensitive_keys"
    by code_simp
  note t1 = fetchAccessTokenByCookie_redaction [OF ok1 j1 p1, of 0 "constructor clientConfig"]
  note t2 = fetchAccessTokenByCookie_redaction [OF ok2 j2 p2, of 0 "constructor clientConfig"]
  show ?thesis
    using ok1 ok2 p1 p2 k1 k2 t1 t2 by simp
qed

section \<open>The login URL\<close>

text \<open>
  The code challenge that \<open>getOAuthLoginUrl\<close> computes with \<open>btoa\<close> and three
  replacements is the base64url encoding of the specification. The verifier comes from
  the store: a stored non-empty verifier is returned and the browser stays as it was;
  otherwise the verifier returned is the one now stored. After \<open>searchParams.set\<close> of a
  name, exactly one pair has that name, and the pairs of other names are as before.
\<close>

lemma b64_table:
  "\<forall>m \<in> set [0..<64].
     replace_all CHR ''/'' ''_'' (replace_all CHR ''+'' ''-''
       (replace_all CHR ''='' [] [base64_alphabet ! m])) = [base64url_alphabet ! m]"
  by code_simp

lemma url_safe_b64:
  "replace_all CHR ''/'' ''_'' (replace_all CHR ''+'' ''-'' (replace_all CHR ''='' [] [b64 n]))
     = [b64url n]"
proof -
  have "n mod 64 \<in> set [0..<64]" by simp
  with b64_table show ?thesis unfolding b64_def b64url_def by blast
qed

lemma url_safe_Nil: "url_safe [] = []"
  by (simp add: url_safe_def replace_all_def)

lemma url_safe_Cons: "url_safe (x # s) = url_safe [x] @ url_safe s"
  by (simp add: url_safe_def replace_all_def)

lemma url_safe_digit: "url_safe [b64 n] = [b64url n]"
  using url_safe_b64 by (simp add: url_safe_def)

lemma url_safe_pad: "url_safe [CHR ''=''] = []"
  by (simp add: url_safe_def replace_all_def)

lemma url_safe_btoa: "url_safe (btoa s) = base64url_spec s"
proof (induction s rule: btoa.induct)
  case 1
  show ?case by (simp add: url_safe_Nil)
next
  case (2 a)
  show ?case
    by (simp add: Let_def url_safe_Cons [of _ "_ # _"] url_safe_digit url_safe_pad)
next
  case (3 a b)
  show ?case
    by (simp add: Let_def url_safe_Cons [of _ "_ # _"] url_safe_digit url_safe_pad)
next
  case (4 a b c rest)
  have "url_safe (btoa (a # b # c # rest)) =
          url_safe [b64 (of_char a div 4)]
          @ url_safe [b64 ((of_char a mod 4) * 16 + of_char b div 16)]
          @ url_safe [b64 ((of_char b mod 16) * 4 + of_char c div 64)]
          @ url_safe [b64 (of_char c mod 64)]
          @ url_safe (btoa rest)"
    by (simp add: Let_def url_safe_Cons [of _ "_ # _"] url_safe_Cons [of _ "btoa rest"])
  then show ?case using 4 by (simp add: Let_def url_safe_digit)
qed

lemma searchParams_after_set:
  "searchParams (searchParams_set k v u) = set_pair k v (searchParams u)"
  by (simp add: searchParams_set_def Let_def)

lemma url_prefix_after_set: "url_prefix (searchParams_set k v u) = url_prefix u"
  by (simp add: searchParams_set_def Let_def)

lemma url_fragment_after_set: "url_fragment (searchParams_set k v u) = url_fragment u"
  by (simp add: searchParams_set_def Let_def)

lemma urlencoded_serialize_nonempty:
  "urlencoded_serialize ((k, v) # ps) \<noteq> []"
  by (cases ps) (simp_all add: urlencoded_serialize_def)

lemma set_pair_nonempty: "set_pair k v ps \<noteq> []"
  by (cases ps) (auto split: if_splits)

lemma url_query_after_set:
  "url_query (searchParams_set k v u) = Some (urlencoded_serialize (set_pair k v (searchParams u)))"
proof -
  obtain k' v' ps where "set_pair k v (searchParams u) = (k', v') # ps"
    using set_pair_nonempty [of k v "searchParams u"]
    by (cases "set_pair k v (searchParams u)") auto
  then show ?thesis
    using urlencoded_serialize_nonempty [of k' v' ps]
    by (simp add: searchParams_set_def Let_def)
qed

lemma getCodeVerifier_stored:
  "localStorage b ''LOGIN_VERIFIER_KEY'' = Some v \<Longrightarrow> v \<noteq> [] \<Longrightarrow> getCodeVerifier b = (v, b)"
  by (simp add: getCodeVerifier_def)

lemma getCodeVerifier_stores:
  "localStorage (snd (getCodeVerifier b)) ''LOGIN_VERIFIER_KEY'' = Some (fst (getCodeVerifier b))
   \<or> (fst (getCodeVerifier b) = [] \<and> localStorage (snd (getCodeVerifier b)) ''LOGIN_VERIFIER_KEY'' = None)"
  by (auto simp add: getCodeVerifier_def newCodeVerifier_def Let_def split: option.splits prod.splits)

lemma filter_name_after_removal:
  "k' \<noteq> k \<Longrightarrow>
   filter (\<lambda>q. fst q = k') (filter (\<lambda>(n, x). n \<noteq> k) ps) = filter (\<lambda>q. fst q = k') ps"
  by (induction ps) auto

lemma filter_rest_after_removal:
  "k \<in> S \<Longrightarrow>
   filter (\<lambda>q. fst q \<notin> S) (filter (\<lambda>(n, x). n \<noteq> k) ps) = filter (\<lambda>q. fst q \<notin> S) ps"
  by (induction ps) auto

lemma filter_same_after_removal:
  "filter (\<lambda>q. fst q = k) (filter (\<lambda>(n, x). n \<noteq> k) ps) = []"
  by (induction ps) auto

lemma filter_set_pair_same:
  "filter (\<lambda>q. fst q = k) (set_pair k v ps) = [(k, v)]"
  by (induction ps) (auto simp del: filter_filter simp add: filter_same_after_removal)

lemma filter_set_pair_other:
  "k' \<noteq> k \<Longrightarrow> filter (\<lambda>q. fst q = k') (set_pair k v ps) = filter (\<lambda>q. fst q = k') ps"
  by (induction ps) (auto simp del: filter_filter simp add: filter_name_after_removal)

lemma filter_set_pair_rest:
  "k \<in> S \<Longrightarrow> filter (\<lambda>q. fst q \<notin> S) (set_pair k v ps) = filter (\<lambda>q. fst q \<notin> S) ps"
  by (induction ps) (auto simp del: filter_filter simp add: filter_rest_after_removal)

lemma getOAuthLoginUrl_value:
  assumes "new_URL (baseUrl c @ ''/frontegg/oauth/authorize'') = Some u"
  shows "fst (getOAuthLoginUrl new_URL digest_of c b) =
           Inr (u \<lparr> url_query := Some (urlencoded_serialize
                      (set_pair ''nonce'' (fst (createRandomString 16 (snd (getCodeVerifier b))))
                      (set_pair ''code_challenge_method'' ''S256''
                      (set_pair ''code_challenge''
                         (base64url_spec (digest_of (fst (getCodeVerifier b))))
                      (set_pair ''scope'' ''openid profile email''
                      (set_pair ''response_type'' ''code''
                      (set_pair ''redirect_uri'' (redirectUri c)
                      (set_pair ''client_id'' (clientId c) (searchParams u))))))))),
                   searchParams :=
                      set_pair ''nonce'' (fst (createRandomString 16 (snd (getCodeVerifier b))))
                      (set_pair ''code_challenge_method'' ''S256''
                      (set_pair ''code_challenge''
                         (base64url_spec (digest_of (fst (getCodeVerifier b))))
                      (set_pair ''scope'' ''openid profile email''
                      (set_pair ''response_type'' ''code''
                      (set_pair ''redirect_uri'' (redirectUri c)
                      (set_pair ''client_id'' (clientId c) (searchParams u))))))) \<rparr>)"
proof -
  obtain codeVerifier b1 where v: "getCodeVerifier b = (codeVerifier, b1)"
    by (cases "getCodeVerifier b")
  obtain nonce b2 where n: "createRandomString 16 b1 = (nonce, b2)"
    by (cases "createRandomString 16 b1")
  have h: "replace_all CHR ''/'' ''_'' (replace_all CHR ''+'' ''-''
             (replace_all CHR ''='' [] (btoa (digest_of codeVerifier))))
           = base64url_spec (digest_of codeVerifier)"
    using url_safe_btoa [of "digest_of codeVerifier"] by (simp add: url_safe_def)
  have q: "searchParams_set k v x =
             x \<lparr> url_query := Some (urlencoded_serialize (set_pair k v (searchParams x))),
                 searchParams := set_pair k v (searchParams x) \<rparr>" for k v x
    using url_query_after_set [of k v x] by (simp add: searchParams_set_def Let_def)
  show ?thesis
    using assms v n by (simp add: getOAuthLoginUrl_def h q Let_def)
qed

lemma getOAuthLoginUrl_browser:
  "snd (getOAuthLoginUrl new_URL digest_of c b) = snd (createRandomString 16 (snd (getCodeVerifier b)))"
  by (simp add: getOAuthLoginUrl_def Let_def split: prod.splits option.splits)

lemma test_verifier: "fst (getCodeVerifier test_browser) = ''hhhhhhhhhhhhhhhh''"
  by code_simp

lemma test_nonce:
  "fst (createRandomString 16 (snd (getCodeVerifier test_browser))) = ''hhhhhhhhhhhhhhhh''"
  by code_simp

lemma test_challenge:
  "base64url_spec (test_SHA_256 ''hhhhhhhhhhhhhhhh'') = ''rzQq0A7k6uWYWO2vWC9QpCzhb-__p0ebWxQZ3beh5DI''"
  by code_simp

lemma test_query_parsed:
  "test_new_URL (baseUrl (constructor query_config) @ ''/frontegg/oauth/authorize'') = Some query_URL"
  by code_simp

lemma test_plain_parsed:
  "serialized_URL (baseUrl (constructor clientConfig) @ ''/frontegg/oauth/authorize'')
     = Some authorize_URL"
  by code_simp

lemma test_query_serialized:
  "urlencoded_serialize
     [(''tenant'', ''a/frontegg/oauth/authorize''),
      (''client_id'', ''test-client-id''),
      (''redirect_uri'', ''http://localhost:3000/oauth/callback''),
      (''response_type'', ''code''),
      (''scope'', ''openid profile email''),
      (''code_challenge'', ''rzQq0A7k6uWYWO2vWC9QpCzhb-__p0ebWxQZ3beh5DI''),
      (''code_challenge_method'', ''S256''),
      (''nonce'', ''hhhhhhhhhhhhhhhh'')]
   = ''tenant=a%2Ffrontegg%2Foauth%2Fauthorize&client_id=test-client-id&redirect_uri=http%3A%2F%2Flocalhost%3A3000%2Foauth%2Fcallback&response_type=code&scope=openid+profile+email&code_challenge=rzQq0A7k6uWYWO2vWC9QpCzhb-__p0ebWxQZ3beh5DI&code_challenge_method=S256&nonce=hhhhhhhhhhhhhhhh''"
  by code_simp

lemma test_plain_serialized:
  "urlencoded_serialize
     [(''client_id'', ''test-client-id''),
      (''redirect_uri'', ''http://localhost:3000/oauth/callback''),
      (''response_type'', ''code''),
      (''scope'', ''openid profile email''),
      (''code_challenge'', ''rzQq0A7k6uWYWO2vWC9QpCzhb-__p0ebWxQZ3beh5DI''),
      (''code_challenge_method'', ''S256''),
      (''nonce'', ''hhhhhhhhhhhhhhhh'')]
   = ''client_id=test-client-id&redirect_uri=http%3A%2F%2Flocalhost%3A3000%2Foauth%2Fcallback&response_type=code&scope=openid+profile+email&code_challenge=rzQq0A7k6uWYWO2vWC9QpCzhb-__p0ebWxQZ3beh5DI&code_challenge_method=S256&nonce=hhhhhhhhhhhhhhhh''"
  by code_simp

lemma test_clients:
  "clientId (constructor clientConfig) = ''test-client-id''"
  "redirectUri (constructor clientConfig) = ''http://localhost:3000/oauth/callback''"
  "clientId (constructor query_config) = ''test-client-id''"
  "redirectUri (constructor query_config) = ''http://localhost:3000/oauth/callback''"
  by (simp_all add: constructor_def clientConfig_def query_config_def)

text \<open>
  C9, as stated: for every configuration the URL returned carries exactly the seven
  query parameters. It fails for a base URL that has a query of its own:
  \<open>searchParams.set\<close> keeps the pairs that the parsed URL already has. With the base
  URL \<open>http://frontegg-test-instance.local/?tenant=a\<close> the URL returned carries eight
  parameters, the first of them \<open>tenant\<close>.
\<close>

theorem getOAuthLoginUrl_counterexample:
  "fst (getOAuthLoginUrl test_new_URL test_SHA_256 (constructor query_config) test_browser)
     = Inr \<lparr> url_prefix = ''http://frontegg-test-instance.local/'',
             url_query = Some ''tenant=a%2Ffrontegg%2Foauth%2Fauthorize&client_id=test-client-id&redirect_uri=http%3A%2F%2Flocalhost%3A3000%2Foauth%2Fcallback&response_type=code&scope=openid+profile+email&code_challenge=rzQq0A7k6uWYWO2vWC9QpCzhb-__p0ebWxQZ3beh5DI&code_challenge_method=S256&nonce=hhhhhhhhhhhhhhhh'',
             url_fragment = None,
             searchParams =
               [(''tenant'', ''a/frontegg/oauth/authorize''),
                (''client_id'', ''test-client-id''),
                (''redirect_uri'', ''http://localhost:3000/oauth/callback''),
                (''response_type'', ''code''),
                (''scope'', ''openid profile email''),
                (''code_challenge'', ''rzQq0A7k6uWYWO2vWC9QpCzhb-__p0ebWxQZ3beh5DI''),
                (''code_challenge_method'', ''S256''),
                (''nonce'', ''hhhhhhhhhhhhhhhh'')] \<rparr>"
proof -
  have p: "set_pair ''nonce'' ''hhhhhhhhhhhhhhhh''
            (set_pair ''code_challenge_method'' ''S256''
            (set_pair ''code_challenge'' ''rzQq0A7k6uWYWO2vWC9QpCzhb-__p0ebWxQZ3beh5DI''
            (set_pair ''scope'' ''openid profile email''
            (set_pair ''response_type'' ''code''
            (set_pair ''redirect_uri'' ''http://localhost:3000/oauth/callback''
            (set_pair ''client_id'' ''test-client-id'' (searchParams query_URL)))))))
         = [(''tenant'', ''a/frontegg/oauth/authorize''),
                (''client_id'', ''test-client-id''),
                (''redirect_uri'', ''http://localhost:3000/oauth/callback''),
                (''response_type'', ''code''),
                (''scope'', ''openid profile email''),
                (''code_challenge'', ''rzQq0A7k6uWYWO2vWC9QpCzhb-__p0ebWxQZ3beh5DI''),
                (''code_challenge_method'', ''S256''),
                (''nonce'', ''hhhhhhhhhhhhhhhh'')]"
    by (simp add: query_URL_def)
  from getOAuthLoginUrl_value [where new_URL = test_new_URL and c = "constructor query_config"
      and u = query_URL and digest_of = test_SHA_256 and b = test_browser, OF test_query_parsed]
  show ?thesis
    unfolding test_verifier test_nonce test_challenge test_clients p test_query_serialized
    by (simp add: query_URL_def)
qed

text \<open>
  C9, amended: when the platform parses \<open>baseUrl\<close> followed by
  \<open>/frontegg/oauth/authorize\<close> to a URL \<open>u\<close>, \<open>getOAuthLoginUrl\<close> returns a URL in
  which each of the seven names \<open>client_id\<close>, \<open>redirect_uri\<close>, \<open>response_type\<close>,
  \<open>scope\<close>, \<open>code_challenge\<close>, \<open>code_challenge_method\<close> and \<open>nonce\<close> occurs exactly
  once, with the configured client id, the configured redirect URI, \<open>code\<close>,
  \<open>openid profile email\<close>, the code challenge, \<open>S256\<close> and a fresh random string. The
  code challenge is the base64url encoding, without padding, of the SHA-256 digest of the
  verifier that \<open>getCodeVerifier\<close> gives. The parameters of other names are those of
  \<open>u\<close>, in their order; when \<open>u\<close> has no query parameter (the base URL has no query of
  its own), the seven are exactly the query parameters, in the order above. The query of
  the URL is the serialization of its parameters; scheme, authority, path and fragment
  are those of \<open>u\<close>.
\<close>

theorem getOAuthLoginUrl_params:
  assumes "new_URL (baseUrl c @ ''/frontegg/oauth/authorize'') = Some u"
  shows "\<exists>loginUrl.
           getOAuthLoginUrl new_URL digest_of c b =
             (Inr loginUrl, snd (createRandomString 16 (snd (getCodeVerifier b))))
         \<and> (let params =
                   [(''client_id'', clientId c),
                    (''redirect_uri'', redirectUri c),
                    (''response_type'', ''code''),
                    (''scope'', ''openid profile email''),
                    (''code_challenge'', base64url_spec (digest_of (fst (getCodeVerifier b)))),
                    (''code_challenge_method'', ''S256''),
                    (''nonce'', fst (createRandomString 16 (snd (getCodeVerifier b))))]
             in (\<forall>p \<in> set params.
                   filter (\<lambda>q. fst q = fst p) (searchParams loginUrl) = [p])
              \<and> filter (\<lambda>q. fst q \<notin> fst ` set params) (searchParams loginUrl)
                  = filter (\<lambda>q. fst q \<notin> fst ` set params) (searchParams u)
              \<and> (searchParams u = [] \<longrightarrow> searchParams loginUrl = params))
         \<and> url_query loginUrl = Some (urlencoded_serialize (searchParams loginUrl))
         \<and> url_prefix loginUrl = url_prefix u
         \<and> url_fragment loginUrl = url_fragment u"
proof -
  define challenge where "challenge = base64url_spec (digest_of (fst (getCodeVerifier b)))"
  define nonce where "nonce = fst (createRandomString 16 (snd (getCodeVerifier b)))"
  define P where "P =
     set_pair ''nonce'' nonce
       (set_pair ''code_challenge_method'' ''S256''
       (set_pair ''code_challenge'' challenge
       (set_pair ''scope'' ''openid profile email''
       (set_pair ''response_type'' ''code''
       (set_pair ''redirect_uri'' (redirectUri c)
       (set_pair ''client_id'' (clientId c) (searchParams u)))))))"
  define loginUrl where "loginUrl = u \<lparr> url_query := Some (urlencoded_serialize P), searchParams := P \<rparr>"
  define params where "params =
                   [(''client_id'', clientId c),
                    (''redirect_uri'', redirectUri c),
                    (''response_type'', ''code''),
                    (''scope'', ''openid profile email''),
                    (''code_challenge'', challenge),
                    (''code_challenge_method'', ''S256''),
                    (''nonce'', nonce)]"
  define S where "S = fst ` set params"
  have g: "getOAuthLoginUrl new_URL digest_of c b =
             (Inr loginUrl, snd (createRandomString 16 (snd (getCodeVerifier b))))"
    using getOAuthLoginUrl_value [where new_URL = new_URL and c = c and u = u
        and digest_of = digest_of and b = b, OF assms]
      getOAuthLoginUrl_browser [of new_URL digest_of c b]
    by (simp add: loginUrl_def P_def challenge_def nonce_def prod_eq_iff)
  have sp: "searchParams loginUrl = P" by (simp add: loginUrl_def)
  have 1: "\<forall>p \<in> set params. filter (\<lambda>q. fst q = fst p) P = [p]"
    by (simp add: params_def P_def filter_set_pair_same filter_set_pair_other)
  have m: "''client_id'' \<in> S" "''redirect_uri'' \<in> S" "''response_type'' \<in> S" "''scope'' \<in> S"
    "''code_challenge'' \<in> S" "''code_challenge_method'' \<in> S" "''nonce'' \<in> S"
    by (simp_all add: S_def params_def)
  have 2: "filter (\<lambda>q. fst q \<notin> S) P = filter (\<lambda>q. fst q \<notin> S) (searchParams u)"
    unfolding P_def by (simp only: filter_set_pair_rest m)
  have 3: "searchParams u = [] \<longrightarrow> P = params"
    by (simp add: P_def params_def)
  have 4: "url_query loginUrl = Some (urlencoded_serialize (searchParams loginUrl))"
    "url_prefix loginUrl = url_prefix u" "url_fragment loginUrl = url_fragment u"
    by (simp_all add: loginUrl_def)
  from 1 2 3 have "(\<forall>p \<in> set params.
                   filter (\<lambda>q. fst q = fst p) (searchParams loginUrl) = [p])
              \<and> filter (\<lambda>q. fst q \<notin> fst ` set params) (searchParams loginUrl)
                  = filter (\<lambda>q. fst q \<notin> fst ` set params) (searchParams u)
              \<and> (searchParams u = [] \<longrightarrow> searchParams loginUrl = params)"
    unfolding sp S_def by (intro conjI)
  then have "(let params =
                   [(''client_id'', clientId c),
                    (''redirect_uri'', redirectUri c),
                    (''response_type'', ''code''),
                    (''scope'', ''openid profile email''),
                    (''code_challenge'', challenge),
                    (''code_challenge_method'', ''S256''),
                    (''nonce'', nonce)]
             in (\<forall>p \<in> set params.
                   filter (\<lambda>q. fst q = fst p) (searchParams loginUrl) = [p])
              \<and> filter (\<lambda>q. fst q \<notin> fst ` set params) (searchParams loginUrl)
                  = filter (\<lambda>q. fst q \<notin> fst ` set params) (searchParams u)
              \<and> (searchParams u = [] \<longrightarrow> searchParams loginUrl = params))"
    unfolding Let_def params_def .
  with g 4 show ?thesis
    unfolding challenge_def nonce_def by (intro exI [of _ loginUrl] conjI)
qed

theorem getOAuthLoginUrl_params_witness:
  "serialized_URL (baseUrl (constructor clientConfig) @ ''/frontegg/oauth/authorize'')
     = Some authorize_URL
   \<and> searchParams authorize_URL = []
   \<and> fst (getCodeVerifier test_browser) = ''hhhhhhhhhhhhhhhh''
   \<and> fst (getOAuthLoginUrl serialized_URL test_SHA_256 (constructor clientConfig) test_browser)
     = Inr \<lparr> url_prefix = ''http://frontegg-test-instance.local/frontegg/oauth/authorize'',
             url_query = Some ''client_id=test-client-id&redirect_uri=http%3A%2F%2Flocalhost%3A3000%2Foauth%2Fcallback&response_type=code&scope=openid+profile+email&code_challenge=rzQq0A7k6uWYWO2vWC9QpCzhb-__p0ebWxQZ3beh5DI&code_challenge_method=S256&nonce=hhhhhhhhhhhhhhhh'',
             url_fragment = None,
             searchParams =
               [(''client_id'', ''test-client-id''),
                (''redirect_uri'', ''http://localhost:3000/oauth/callback''),
                (''response_type'', ''code''),
                (''scope'', ''openid profile email''),
                (''code_challenge'', ''rzQq0A7k6uWYWO2vWC9QpCzhb-__p0ebWxQZ3beh5DI''),
                (''code_challenge_method'', ''S256''),
                (''nonce'', ''hhhhhhhhhhhhhhhh'')] \<rparr>
   \<and> test_new_URL (baseUrl (constructor query_config) @ ''/frontegg/oauth/authorize'')
     = Some query_URL
   \<and> (\<exists>loginUrl.
         fst (getOAuthLoginUrl test_new_URL test_SHA_256 (constructor query_config) test_browser)
           = Inr loginUrl
       \<and> filter (\<lambda>q. fst q = ''client_id'') (searchParams loginUrl)
           = [(''client_id'', ''test-client-id'')]
       \<and> filter (\<lambda>q. fst q = ''code_challenge'') (searchParams loginUrl)
           = [(''code_challenge'', ''rzQq0A7k6uWYWO2vWC9QpCzhb-__p0ebWxQZ3beh5DI'')])"
proof -
  have b: "searchParams authorize_URL = []" by (simp add: authorize_URL_def)
  have p: "url_prefix authorize_URL = ''http://frontegg-test-instance.local/frontegg/oauth/authorize''"
    "url_fragment authorize_URL = None"
    by (simp_all add: authorize_URL_def)
  from getOAuthLoginUrl_params [where new_URL = serialized_URL
        and c = "constructor clientConfig" and u = authorize_URL
        and digest_of = test_SHA_256 and b = test_browser, OF test_plain_parsed]
  obtain loginUrl where l:
    "fst (getOAuthLoginUrl serialized_URL test_SHA_256 (constructor clientConfig) test_browser)
       = Inr loginUrl"
    "searchParams loginUrl =
               [(''client_id'', ''test-client-id''),
                (''redirect_uri'', ''http://localhost:3000/oauth/callback''),
                (''response_type'', ''code''),
                (''scope'', ''openid profile email''),
                (''code_challenge'', ''rzQq0A7k6uWYWO2vWC9QpCzhb-__p0ebWxQZ3beh5DI''),
                (''code_challenge_method'', ''S256''),
                (''nonce'', ''hhhhhhhhhhhhhhhh'')]"
    "url_query loginUrl = Some (urlencoded_serialize (searchParams loginUrl))"
    "url_prefix loginUrl = url_prefix authorize_URL"
    "url_fragment loginUrl = url_fragment authorize_URL"
    unfolding test_verifier test_nonce test_challenge test_clients Let_def using b by auto
  have r: "loginUrl = \<lparr> url_prefix = url_prefix loginUrl, url_query = url_query loginUrl,
          url_fragment = url_fragment loginUrl, searchParams = searchParams loginUrl \<rparr>"
    by simp
  have one: "fst (getOAuthLoginUrl serialized_URL test_SHA_256 (constructor clientConfig) test_browser)
     = Inr \<lparr> url_prefix = ''http://frontegg-test-instance.local/frontegg/oauth/authorize'',
             url_query = Some ''client_id=test-client-id&redirect_uri=http%3A%2F%2Flocalhost%3A3000%2Foauth%2Fcallback&response_type=code&scope=openid+profile+email&code_challenge=rzQq0A7k6uWYWO2vWC9QpCzhb-__p0ebWxQZ3beh5DI&code_challenge_method=S256&nonce=hhhhhhhhhhhhhhhh'',
             url_fragment = None,
             searchParams =
               [(''client_id'', ''test-client-id''),
                (''redirect_uri'', ''http://localhost:3000/oauth/callback''),
                (''response_type'', ''code''),
                (''scope'', ''openid profile email''),
                (''code_challenge'', ''rzQq0A7k6uWYWO2vWC9QpCzhb-__p0ebWxQZ3beh5DI''),
                (''code_challenge_method'', ''S256''),
                (''nonce'', ''hhhhhhhhhhhhhhhh'')] \<rparr>"
    using r l p test_plain_serialized by simp
  from getOAuthLoginUrl_params [where new_URL = test_new_URL
        and c = "constructor query_config" and u = query_URL
        and digest_of = test_SHA_256 and b = test_browser, OF test_query_parsed]
  obtain loginUrl' where l':
    "fst (getOAuthLoginUrl test_new_URL test_SHA_256 (constructor query_config) test_browser)
       = Inr loginUrl'"
    "filter (\<lambda>q. fst q = ''client_id'') (searchParams loginUrl')
       = [(''client_id'', ''test-client-id'')]"
    "filter (\<lambda>q. fst q = ''code_challenge'') (searchParams loginUrl')
       = [(''code_challenge'', ''rzQq0A7k6uWYWO2vWC9QpCzhb-__p0ebWxQZ3beh5DI'')]"
    unfolding test_verifier test_nonce test_challenge test_clients Let_def by auto
  then have two: "\<exists>loginUrl.
         fst (getOAuthLoginUrl test_new_URL test_SHA_256 (constructor query_config) test_browser)
           = Inr loginUrl
       \<and> filter (\<lambda>q. fst q = ''client_id'') (searchParams loginUrl)
           = [(''client_id'', ''test-client-id'')]
       \<and> filter (\<lambda>q. fst q = ''code_challenge'') (searchParams loginUrl)
           = [(''code_challenge'', ''rzQq0A7k6uWYWO2vWC9QpCzhb-__p0ebWxQZ3beh5DI'')]"
    by blast
  from test_plain_parsed b test_verifier one test_query_parsed two show ?thesis
    by (intro conjI)
qed

section \<open>One operation in flight\<close>

text \<open>The exchanges write the token fields only; the slot and the profile stay.\<close>

lemma cookie_keeps_slot:
  "userDataPromise (snd (fetchAccessTokenByCookie f now c)) = userDataPromise c"
  by (simp add: fetchAccessTokenByCookie_def Let_def split: sum.splits option.splits)

lemma refresh_keeps_slot:
  "userDataPromise (snd (fetchAccessTokenByOAuthRefreshToken f now c)) = userDataPromise c"
  by (simp add: fetchAccessTokenByOAuthRefreshToken_def split: sum.splits option.splits)

lemma code_keeps_slot:
  "userDataPromise (fst (snd (fetchAccessTokenByOAuthCode oauthCode f now c b))) = userDataPromise c"
  by (simp add: fetchAccessTokenByOAuthCode_def split: sum.splits option.splits prod.splits)

lemma cookie_keeps_profile:
  "userData (snd (fetchAccessTokenByCookie f now c)) = userData c"
  by (simp add: fetchAccessTokenByCookie_def Let_def split: sum.splits option.splits)

lemma refresh_keeps_profile:
  "userData (snd (fetchAccessTokenByOAuthRefreshToken f now c)) = userData c"
  by (simp add: fetchAccessTokenByOAuthRefreshToken_def split: sum.splits option.splits)

text \<open>The invariant holds in a new client and every event keeps it.\<close>

lemma single_flight_ops:
  assumes "single_flight w" and "map_of (ops w) p = Some st"
  shows "ops w = [(p, st)] \<and> userDataPromise (cl w) = Some p"
proof -
  from assms(2) have "p \<in> set (map fst (ops w))"
    by (metis map_of_eq_None_iff option.distinct(1) set_map)
  with assms(1) have s: "userDataPromise (cl w) = Some p" and m: "map fst (ops w) = [p]"
    by (auto simp add: single_flight_def split: option.splits)
  from m obtain st' where "ops w = [(p, st')]" by (cases "ops w") auto
  with assms(2) s show ?thesis by simp
qed

lemma single_flight_initial: "single_flight (initial cfg b)"
  by (simp add: single_flight_def initial_def constructor_def Let_def split: option.splits)

lemma single_flight_call:
  assumes "single_flight w"
  shows "single_flight (snd (getUserData forceRefresh now1 now2 w))"
proof (cases "userDataPromise (cl w)")
  case None
  with assms have o: "ops w = []" by (simp add: single_flight_def)
  obtain st reqs where g: "getAccessToken forceRefresh now2 (cl w) = (st, reqs)"
    by (cases "getAccessToken forceRefresh now2 (cl w)")
  have "single_flight (snd (getUserData_pending forceRefresh now2 w))"
    using assms None o g
    by (auto simp add: getUserData_pending_def single_flight_def list_all_iff less_Suc_eq Let_def)
  with assms show ?thesis
    by (simp add: getUserData_def split: option.splits)
next
  case (Some p)
  with assms show ?thesis
    by (simp add: getUserData_def getUserData_pending_def split: option.splits)
qed

lemma single_flight_catch:
  assumes "single_flight w" and "map_of (ops w) p = Some st"
    and "userDataPromise c' = userDataPromise (cl w)"
  shows "single_flight (catch_clear p e (w \<lparr> cl := c' \<rparr>))"
proof -
  from single_flight_ops [OF assms(1,2)]
  have o: "ops w = [(p, st)]" and s: "userDataPromise (cl w) = Some p" by simp_all
  with assms(1) show ?thesis
    by (auto simp add: single_flight_def catch_clear_def list_all_iff)
qed

lemma single_flight_store:
  assumes "single_flight w" and "map_of (ops w) p = Some st"
  shows "single_flight (then_store p u w)"
proof -
  from single_flight_ops [OF assms]
  have o: "ops w = [(p, st)]" and s: "userDataPromise (cl w) = Some p" by simp_all
  with assms(1) show ?thesis
    by (auto simp add: single_flight_def then_store_def list_all_iff)
qed

lemma single_flight_stage:
  assumes "single_flight w" and "map_of (ops w) p = Some st"
    and "userDataPromise c' = userDataPromise (cl w)"
  shows "single_flight (w \<lparr> cl := c', ops := set_stage p st' (ops w) \<rparr>)"
proof -
  from single_flight_ops [OF assms(1,2)]
  have o: "ops w = [(p, st)]" and s: "userDataPromise (cl w) = Some p" by simp_all
  with assms(1,3) show ?thesis
    by (auto simp add: single_flight_def set_stage_def list_all_iff)
qed

lemma single_flight_step:
  assumes "single_flight w" and "step e w = Some w'"
  shows "single_flight w'"
proof (cases e)
  case (CallGetUserData forceRefresh now1 now2)
  with assms single_flight_call [of w forceRefresh now1 now2] show ?thesis by auto
next
  case (TokenResponse p f now)
  show ?thesis
  proof (cases "map_of (ops w) p")
    case None
    with assms TokenResponse show ?thesis by simp
  next
    case (Some st)
    show ?thesis
    proof (cases st)
      case AwaitingCookie
      obtain r c' where x: "fetchAccessTokenByCookie f now (cl w) = (r, c')"
        by (cases "fetchAccessTokenByCookie f now (cl w)")
      with cookie_keeps_slot [of f now "cl w"]
      have k: "userDataPromise c' = userDataPromise (cl w)" by simp
      show ?thesis
      proof (cases r)
        case (Inl err)
        with assms TokenResponse Some AwaitingCookie x
        have "w' = catch_clear p err (w \<lparr> cl := c' \<rparr>)" by simp
        with single_flight_catch [OF assms(1) Some k] show ?thesis by simp
      next
        case (Inr tok)
        with assms TokenResponse Some AwaitingCookie x
        have "w' = w \<lparr> cl := c', ops := set_stage p (HasToken tok) (ops w) \<rparr>" by simp
        with single_flight_stage [OF assms(1) Some k] show ?thesis by simp
      qed
    next
      case AwaitingRefresh
      obtain r c' where x: "fetchAccessTokenByOAuthRefreshToken f now (cl w) = (r, c')"
        by (cases "fetchAccessTokenByOAuthRefreshToken f now (cl w)")
      with refresh_keeps_slot [of f now "cl w"]
      have k: "userDataPromise c' = userDataPromise (cl w)" by simp
      show ?thesis
      proof (cases r)
        case (Inl err)
        with assms TokenResponse Some AwaitingRefresh x
        have "w' = catch_clear p err (w \<lparr> cl := c' \<rparr>)" by simp
        with single_flight_catch [OF assms(1) Some k] show ?thesis by simp
      next
        case (Inr tok)
        with assms TokenResponse Some AwaitingRefresh x
        have "w' = w \<lparr> cl := c', ops := set_stage p (HasToken tok) (ops w) \<rparr>" by simp
        with single_flight_stage [OF assms(1) Some k] show ?thesis by simp
      qed
    next
      case (HasToken tok)
      with assms TokenResponse Some show ?thesis by simp
    next
      case (AwaitingProfile tok)
      with assms TokenResponse Some show ?thesis by simp
    qed
  qed
next
  case (ThenFetchUserData p)
  show ?thesis
  proof (cases "map_of (ops w) p")
    case None
    with assms ThenFetchUserData show ?thesis by simp
  next
    case (Some st)
    from single_flight_ops [OF assms(1) Some]
    have o: "ops w = [(p, st)]" and s: "userDataPromise (cl w) = Some p" by simp_all
    with assms ThenFetchUserData Some show ?thesis
      by (cases st) (auto simp add: single_flight_def set_stage_def)
  qed
next
  case (ProfileResponse p f)
  show ?thesis
  proof (cases "map_of (ops w) p")
    case None
    with assms ProfileResponse show ?thesis by simp
  next
    case (Some st)
    have k: "userDataPromise (cl w) = userDataPromise (cl w)" by simp
    have c: "single_flight (catch_clear p err w)" for err
      using single_flight_catch [OF assms(1) Some k, of err] by simp
    from assms ProfileResponse Some c single_flight_store [OF assms(1) Some] show ?thesis
      by (cases st) (auto split: sum.splits)
  qed
next
  case (CallByOAuthCode oauthCode f now)
  obtain r c' b' where x: "fetchAccessTokenByOAuthCode oauthCode f now (cl w) (br w) = (r, c', b')"
    by (cases "fetchAccessTokenByOAuthCode oauthCode f now (cl w) (br w)")
  with code_keeps_slot [of oauthCode f now "cl w" "br w"]
  have "userDataPromise c' = userDataPromise (cl w)" by simp
  with assms CallByOAuthCode x show ?thesis
    by (auto simp add: single_flight_def)
next
  case (CallByOAuthRefreshToken refresh f now)
  obtain r c' where x: "fetchAccessTokenByOAuthRefreshToken f now (cl w) = (r, c')"
    by (cases "fetchAccessTokenByOAuthRefreshToken f now (cl w)")
  with refresh_keeps_slot [of f now "cl w"]
  have "userDataPromise c' = userDataPromise (cl w)" by simp
  with assms CallByOAuthRefreshToken x show ?thesis
    by (auto simp add: single_flight_def)
qed

lemma reachable_single_flight: "reachable w \<Longrightarrow> single_flight w"
  by (induction rule: reachable.induct) (auto intro: single_flight_initial single_flight_step)

text \<open>What a call and what any event does while the slot is taken, and while it is empty.\<close>

lemma call_while_pending:
  assumes "userDataPromise (cl w) = Some p"
  shows "getUserData forceRefresh now1 now2 w =
           ((case userData (cl w) of
               Some u \<Rightarrow>
                 if \<not> isTokenExpired (tokenExpirationTime (cl w)) now1 \<and> \<not> forceRefresh
                 then Profile u else Promise p
             | None \<Rightarrow> Promise p), w)"
  using assms by (simp add: getUserData_def getUserData_pending_def split: option.splits)

lemma call_keeps_settled: "settled (snd (getUserData forceRefresh now1 now2 w)) = settled w"
  by (simp add: getUserData_def getUserData_pending_def Let_def split: option.splits prod.splits)

lemma call_keeps_slot:
  "userDataPromise (cl w) = Some p \<Longrightarrow>
   userDataPromise (cl (snd (getUserData forceRefresh now1 now2 w))) = Some p"
  by (simp add: call_while_pending)

lemma step_while_pending:
  assumes "single_flight w" and "step e w = Some w'" and "userDataPromise (cl w) = Some p"
  shows "(userDataPromise (cl w') = Some p \<and> settled w' = settled w)
       \<or> (userDataPromise (cl w') = None \<and> ops w' = []
           \<and> (\<exists>r. settled w' = settled w @ [(p, r)]))"
proof -
  from assms(1,3) obtain st where o: "ops w = [(p, st)]"
    by (cases "ops w") (auto simp add: single_flight_def)
  show ?thesis
  proof (cases e)
    case (CallGetUserData forceRefresh now1 now2)
    with assms(2,3) call_keeps_settled [of forceRefresh now1 now2 w]
      call_keeps_slot [of w p forceRefresh now1 now2]
    show ?thesis by auto
  next
    case (TokenResponse q f now)
    show ?thesis
    proof (cases "q = p")
      case False
      with assms(2) o TokenResponse show ?thesis by simp
    next
      case True
      show ?thesis
      proof (cases st)
        case AwaitingCookie
        obtain r c' where x: "fetchAccessTokenByCookie f now (cl w) = (r, c')"
          by (cases "fetchAccessTokenByCookie f now (cl w)")
        with cookie_keeps_slot [of f now "cl w"] assms(3)
        have k: "userDataPromise c' = Some p" by simp
        with assms(2) o TokenResponse True AwaitingCookie x show ?thesis
          by (cases r) (auto simp add: catch_clear_def)
      next
        case AwaitingRefresh
        obtain r c' where x: "fetchAccessTokenByOAuthRefreshToken f now (cl w) = (r, c')"
          by (cases "fetchAccessTokenByOAuthRefreshToken f now (cl w)")
        with refresh_keeps_slot [of f now "cl w"] assms(3)
        have k: "userDataPromise c' = Some p" by simp
        with assms(2) o TokenResponse True AwaitingRefresh x show ?thesis
          by (cases r) (auto simp add: catch_clear_def)
      next
        case (HasToken tok)
        with assms(2) o TokenResponse True show ?thesis by simp
      next
        case (AwaitingProfile tok)
        with assms(2) o TokenResponse True show ?thesis by simp
      qed
    qed
  next
    case (ThenFetchUserData q)
    with assms(2,3) o show ?thesis
      by (cases "q = p"; cases st) auto
  next
    case (ProfileResponse q f)
    with assms(2,3) o show ?thesis
      by (cases "q = p"; cases st)
        (auto simp add: catch_clear_def then_store_def split: sum.splits)
  next
    case (CallByOAuthCode oauthCode f now)
    obtain r c' b' where x: "fetchAccessTokenByOAuthCode oauthCode f now (cl w) (br w) = (r, c', b')"
      by (cases "fetchAccessTokenByOAuthCode oauthCode f now (cl w) (br w)")
    with code_keeps_slot [of oauthCode f now "cl w" "br w"] assms(3)
    have "userDataPromise c' = Some p" by simp
    with assms(2) CallByOAuthCode x show ?thesis by auto
  next
    case (CallByOAuthRefreshToken refresh f now)
    obtain r c' where x: "fetchAccessTokenByOAuthRefreshToken f now (cl w) = (r, c')"
      by (cases "fetchAccessTokenByOAuthRefreshToken f now (cl w)")
    with refresh_keeps_slot [of f now "cl w"] assms(3)
    have "userDataPromise c' = Some p" by simp
    with assms(2) CallByOAuthRefreshToken x show ?thesis by auto
  qed
qed

lemma step_while_idle:
  assumes "single_flight w" and "step e w = Some w'" and "userDataPromise (cl w) = None"
  shows "settled w' = settled w"
proof -
  from assms(1,3) have o: "ops w = []" by (simp add: single_flight_def)
  show ?thesis
  proof (cases e)
    case (CallGetUserData forceRefresh now1 now2)
    with assms(2) call_keeps_settled [of forceRefresh now1 now2 w] show ?thesis by auto
  next
    case (TokenResponse q f now)
    with assms(2) o show ?thesis by simp
  next
    case (ThenFetchUserData q)
    with assms(2) o show ?thesis by simp
  next
    case (ProfileResponse q f)
    with assms(2) o show ?thesis by simp
  next
    case (CallByOAuthCode oauthCode f now)
    with assms(2) show ?thesis by (auto split: prod.splits)
  next
    case (CallByOAuthRefreshToken refresh f now)
    with assms(2) show ?thesis by (auto split: prod.splits)
  qed
qed

text \<open>The pending world of the examples.\<close>

lemma reachable_pending_world: "reachable pending_world"
proof -
  have "reachable cached_world"
    unfolding cached_world_def by (rule reachable_initial)
  moreover have "step (CallGetUserData True 1000 1000) cached_world = Some pending_world"
    by (simp add: pending_world_def)
  ultimately show ?thesis by (rule reachable_step)
qed

lemma pending_world_slot: "userDataPromise (cl pending_world) = Some 0"
  by (simp add: pending_world_def cached_world_def initial_def constructor_def clientConfig_def
      getUserData_def getUserData_pending_def getAccessToken_def Let_def split: prod.splits)

lemma pending_world_profile:
  "userData (cl pending_world) = Some USER_DATA
   \<and> \<not> isTokenExpired (tokenExpirationTime (cl pending_world)) 1000"
  by (simp add: pending_world_def cached_world_def initial_def constructor_def clientConfig_def
      getUserData_def getUserData_pending_def getAccessToken_def Let_def isTokenExpired_def
      split: prod.splits)

text \<open>
  C1, as stated: while an operation is pending, every further call of \<open>getUserData\<close>,
  with any options, returns that pending operation. It fails: the test for the cached
  profile comes first. After \<open>getUserData({forceRefresh: true})\<close> on a client with a
  cached profile and a token that is not expired, the operation 0 is pending, and
  \<open>getUserData()\<close> returns the cached profile, not the pending operation.
\<close>

theorem getUserData_single_flight_counterexample:
  "reachable pending_world
   \<and> userDataPromise (cl pending_world) = Some 0
   \<and> fst (getUserData False 1000 1000 pending_world) = Profile USER_DATA
   \<and> fst (getUserData False 1000 1000 pending_world) \<noteq> Promise 0"
  using reachable_pending_world pending_world_slot pending_world_profile
  by (simp add: getUserData_def)

text \<open>
  C1, amended: in every world that events lead to from a new client,
  \<^item> at most one operation is in flight (hence at most one profile request), and it is
    the one whose promise the slot holds;
  \<^item> no promise has settled twice, and the pending one has not settled;
  \<^item> while the slot holds \<open>p\<close>, a call of \<open>getUserData\<close> with any options leaves the
    world as it is (it sends no request and starts no operation) and returns the
    pending promise \<open>p\<close>, unless a profile is cached, the token is not expired and
    \<open>forceRefresh\<close> is false, in which case it returns the cached profile;
  \<^item> while the slot holds \<open>p\<close>, every event either keeps \<open>p\<close> in the slot and settles
    nothing, or settles \<open>p\<close> (with a profile or with an error) and clears the slot,
    leaving no operation in flight: the slot is cleared exactly when the operation
    settles, on the success and on the failure path;
  \<^item> while the slot is empty, no event settles anything.
\<close>

theorem getUserData_single_flight:
  assumes "reachable w"
  shows "length (ops w) \<le> 1
       \<and> map fst (ops w) = (case userDataPromise (cl w) of None \<Rightarrow> [] | Some p \<Rightarrow> [p])
       \<and> distinct (map fst (settled w))
       \<and> (\<forall>p. userDataPromise (cl w) = Some p \<longrightarrow> p \<notin> fst ` set (settled w))
       \<and> (\<forall>p forceRefresh now1 now2. userDataPromise (cl w) = Some p \<longrightarrow>
             getUserData forceRefresh now1 now2 w =
               ((case userData (cl w) of
                   Some u \<Rightarrow>
                     if \<not> isTokenExpired (tokenExpirationTime (cl w)) now1 \<and> \<not> forceRefresh
                     then Profile u else Promise p
                 | None \<Rightarrow> Promise p), w))
       \<and> (\<forall>p e w'. userDataPromise (cl w) = Some p \<longrightarrow> step e w = Some w' \<longrightarrow>
             (userDataPromise (cl w') = Some p \<and> settled w' = settled w)
             \<or> (userDataPromise (cl w') = None \<and> ops w' = []
                 \<and> (\<exists>r. settled w' = settled w @ [(p, r)])))
       \<and> (\<forall>e w'. userDataPromise (cl w) = None \<longrightarrow> step e w = Some w' \<longrightarrow>
             settled w' = settled w)"
proof -
  from assms have i: "single_flight w" by (rule reachable_single_flight)
  have 1: "map fst (ops w) = (case userDataPromise (cl w) of None \<Rightarrow> [] | Some p \<Rightarrow> [p])"
    using i by (simp add: single_flight_def)
  have "length (map fst (ops w)) \<le> 1"
    unfolding 1 by (simp split: option.splits)
  then have 2: "length (ops w) \<le> 1" by simp
  have 3: "distinct (map fst (settled w))"
    using i by (simp add: single_flight_def)
  have 4: "\<forall>p. userDataPromise (cl w) = Some p \<longrightarrow> p \<notin> fst ` set (settled w)"
  proof (intro allI impI)
    fix p
    assume s: "userDataPromise (cl w) = Some p"
    with 1 have "map fst (ops w) = [p]" by simp
    moreover from i have "list_all (\<lambda>p. p \<notin> set (map fst (settled w))) (map fst (ops w))"
      unfolding single_flight_def by blast
    ultimately show "p \<notin> fst ` set (settled w)" by simp
  qed
  have 5: "\<forall>p forceRefresh now1 now2. userDataPromise (cl w) = Some p \<longrightarrow>
             getUserData forceRefresh now1 now2 w =
               ((case userData (cl w) of
                   Some u \<Rightarrow>
                     if \<not> isTokenExpired (tokenExpirationTime (cl w)) now1 \<and> \<not> forceRefresh
                     then Profile u else Promise p
                 | None \<Rightarrow> Promise p), w)"
    using call_while_pending [of w] by (intro allI impI)
  have 6: "\<forall>p e w'. userDataPromise (cl w) = Some p \<longrightarrow> step e w = Some w' \<longrightarrow>
             (userDataPromise (cl w') = Some p \<and> settled w' = settled w)
             \<or> (userDataPromise (cl w') = None \<and> ops w' = []
                 \<and> (\<exists>r. settled w' = settled w @ [(p, r)]))"
    using step_while_pending [OF i] by (intro allI impI)
  have 7: "\<forall>e w'. userDataPromise (cl w) = None \<longrightarrow> step e w = Some w' \<longrightarrow>
             settled w' = settled w"
    using step_while_idle [OF i] by (intro allI impI)
  show ?thesis
    by (intro conjI) (rule 2, rule 1, rule 3, rule 4, rule 5, rule 6, rule 7)
qed

theorem getUserData_single_flight_witness:
  "reachable pending_world
   \<and> userDataPromise (cl pending_world) = Some 0
   \<and> map fst (ops pending_world) = [0]
   \<and> getUserData True 2000 2000 pending_world = (Promise 0, pending_world)
   \<and> getUserData False 2000 2000 pending_world = (Profile USER_DATA, pending_world)
   \<and> (\<exists>w'. step (ThenFetchUserData 0) pending_world = Some w'
            \<and> userDataPromise (cl w') = Some 0 \<and> settled w' = settled pending_world)"
proof -
  note t = getUserData_single_flight [OF reachable_pending_world]
  have e: "\<not> isTokenExpired (tokenExpirationTime (cl pending_world)) 2000"
    by (simp add: pending_world_def cached_world_def initial_def constructor_def clientConfig_def
      getUserData_def getUserData_pending_def getAccessToken_def Let_def isTokenExpired_def
      split: prod.splits)
  from t pending_world_slot have o: "map fst (ops pending_world) = [0]" by simp
  from t pending_world_slot
  have c: "getUserData forceRefresh now1 now2 pending_world =
               ((case userData (cl pending_world) of
                   Some u \<Rightarrow>
                     if \<not> isTokenExpired (tokenExpirationTime (cl pending_world)) now1 \<and> \<not> forceRefresh
                     then Profile u else Promise 0
                 | None \<Rightarrow> Promise 0), pending_world)" for forceRefresh now1 now2
    by blast
  have s: "ops pending_world = [(0, HasToken ''test-access-token'')]"
    by (simp add: pending_world_def cached_world_def initial_def constructor_def clientConfig_def
      getUserData_def getUserData_pending_def getAccessToken_def Let_def USER_DATA_def
      split: prod.splits)
  then obtain w' where w': "step (ThenFetchUserData 0) pending_world = Some w'" by simp
  with t pending_world_slot
  have "(userDataPromise (cl w') = Some 0 \<and> settled w' = settled pending_world)
             \<or> (userDataPromise (cl w') = None \<and> ops w' = []
                 \<and> (\<exists>r. settled w' = settled pending_world @ [(0, r)]))"
    by blast
  moreover from w' s have "ops w' \<noteq> []" by (auto simp add: set_stage_def)
  ultimately have "userDataPromise (cl w') = Some 0 \<and> settled w' = settled pending_world"
    by blast
  with w' reachable_pending_world pending_world_slot o c [of True 2000] c [of False 2000] e
    pending_world_profile
  show ?thesis by simp
qed

section \<open>A failing \<open>getUserData\<close>\<close>

text \<open>
  A token exchange that throws leaves the client as it was; one that returns has received
  a valid payload and has written the three token fields, and a valid payload always
  makes it return. Handlers of the operation that settles are followed stage by stage;
  awaiting \<open>getUserData\<close> always gives a result.
\<close>

lemma cookie_failure:
  "fetchAccessTokenByCookie f now c = (Inl e, c') \<Longrightarrow> c' = c"
  by (auto simp add: fetchAccessTokenByCookie_def Let_def split: sum.splits option.splits)

lemma refresh_failure:
  "fetchAccessTokenByOAuthRefreshToken f now c = (Inl e, c') \<Longrightarrow> c' = c"
  by (auto simp add: fetchAccessTokenByOAuthRefreshToken_def split: sum.splits option.splits)

lemma fetchWithAssert_success:
  "fetchWithAssert url f = Inr r \<Longrightarrow> f = Responded r \<and> res_ok r"
  by (auto simp add: fetchWithAssert_def Let_def split: fetched.splits if_splits)

lemma cookie_success:
  assumes "fetchAccessTokenByCookie f now c = (Inr tok, c')"
  shows "\<exists>r j data. f = Responded r \<and> res_ok r \<and> res_json r = Some j
           \<and> GET_FRONTEGG_TOKEN_RESPONSE_SCHEMA_parse j = Inr data
           \<and> tok = access_token data
           \<and> c' = c \<lparr> accessToken := Some (access_token data),
                        refreshToken := Some (refresh_token data),
                        tokenExpirationTime := Some (now + expires_in data * 1000) \<rparr>"
  using assms fetchWithAssert_success [of "baseUrl c @ ''/frontegg/oauth/authorize/silent''" f]
  by (auto simp add: fetchAccessTokenByCookie_def Let_def calculateTokenExpirationTime_def
      split: sum.splits option.splits)

lemma refresh_success:
  assumes "fetchAccessTokenByOAuthRefreshToken f now c = (Inr tok, c')"
  shows "\<exists>r j data. f = Responded r \<and> res_ok r \<and> res_json r = Some j
           \<and> GET_FRONTEGG_TOKEN_RESPONSE_SCHEMA_parse j = Inr data
           \<and> tok = access_token data
           \<and> c' = c \<lparr> accessToken := Some (access_token data),
                        refreshToken := Some (refresh_token data),
                        tokenExpirationTime := Some (now + expires_in data * 1000) \<rparr>"
  using assms fetchWithAssert_success [of "baseUrl c @ ''/frontegg/oauth/token''" f]
  by (auto simp add: fetchAccessTokenByOAuthRefreshToken_def calculateTokenExpirationTime_def
      split: sum.splits option.splits)

lemma fetchUserData_baseUrl:
  "baseUrl c = baseUrl c' \<Longrightarrow> fetchUserData tok pf c = fetchUserData tok pf c'"
  by (simp add: fetchUserData_def)

lemma profile_response_failure:
  assumes "ops x = [(p, AwaitingProfile tok)]" and "p \<notin> fst ` set (settled x)"
    and "step (ProfileResponse p pf) x = Some x'"
    and "map_of (settled x') p = Some (Inl e)"
  shows "cl x' = (cl x) \<lparr> userDataPromise := None \<rparr> \<and> fetchUserData tok pf (cl x) = Inl e"
proof (cases "fetchUserData tok pf (cl x)")
  case (Inl err)
  with assms(1,3) have "x' = catch_clear p err x" by simp
  with assms(2,4) Inl show ?thesis
    by (simp add: catch_clear_def map_of_append map_add_def map_of_eq_None_iff [THEN iffD2]
        split: option.splits)
next
  case (Inr u)
  with assms(1,3) have "x' = then_store p u x" by simp
  with assms(2,4) show ?thesis
    by (simp add: then_store_def map_of_append map_add_def map_of_eq_None_iff [THEN iffD2]
        split: option.splits)
qed

lemma then_profile_failure:
  assumes "ops x = [(p, HasToken tok)]" and "p \<notin> fst ` set (settled x)"
    and "then_profile p pf x = Some x'"
    and "map_of (settled x') p = Some (Inl e)"
  shows "cl x' = (cl x) \<lparr> userDataPromise := None \<rparr> \<and> fetchUserData tok pf (cl x) = Inl e"
proof -
  let ?y = "x \<lparr> ops := set_stage p (AwaitingProfile tok) (ops x),
                 sent := sent x @ [fetchUserData_request tok (cl x)] \<rparr>"
  from assms(1) have s: "step (ThenFetchUserData p) x = Some ?y" by simp
  with assms(3) have r: "step (ProfileResponse p pf) ?y = Some x'"
    by (simp add: then_profile_def)
  from assms(1) have o: "ops ?y = [(p, AwaitingProfile tok)]" by (simp add: set_stage_def)
  from assms(2) have n: "p \<notin> fst ` set (settled ?y)" by simp
  from profile_response_failure [OF o n r assms(4)] show ?thesis by simp
qed

lemma call_returns_promise:
  assumes "getUserData forceRefresh now1 now2 w = (Promise p, w1)"
  shows "cl w1 = (cl w) \<lparr> userDataPromise := Some p \<rparr>"
proof (cases "userDataPromise (cl w)")
  case None
  with assms show ?thesis
    by (auto simp add: getUserData_def getUserData_pending_def Let_def
        split: option.splits if_splits prod.splits)
next
  case (Some q)
  with assms have "q = p" and "w1 = w"
    by (auto simp add: getUserData_def getUserData_pending_def split: option.splits if_splits)
  with Some show ?thesis by simp
qed

lemma pending_operation:
  assumes "single_flight x" and "userDataPromise (cl x) = Some p"
  shows "\<exists>st. ops x = [(p, st)]" and "p \<notin> fst ` set (settled x)"
proof -
  from assms have m: "map fst (ops x) = [p]" by (simp add: single_flight_def)
  then show "\<exists>st. ops x = [(p, st)]" by (cases "ops x") auto
  from assms(1) have "list_all (\<lambda>p. p \<notin> set (map fst (settled x))) (map fst (ops x))"
    unfolding single_flight_def by blast
  with m show "p \<notin> fst ` set (settled x)" by simp
qed

lemma cookie_slot:
  "fetchAccessTokenByCookie f now (c \<lparr> userDataPromise := s \<rparr>) =
     (fst (fetchAccessTokenByCookie f now c),
      (snd (fetchAccessTokenByCookie f now c)) \<lparr> userDataPromise := s \<rparr>)"
  by (simp add: fetchAccessTokenByCookie_def Let_def split: sum.splits option.splits)

lemma refresh_slot:
  "fetchAccessTokenByOAuthRefreshToken f now (c \<lparr> userDataPromise := s \<rparr>) =
     (fst (fetchAccessTokenByOAuthRefreshToken f now c),
      (snd (fetchAccessTokenByOAuthRefreshToken f now c)) \<lparr> userDataPromise := s \<rparr>)"
  by (simp add: fetchAccessTokenByOAuthRefreshToken_def split: sum.splits option.splits)

lemma token_exchange_slot:
  "token_exchange st f now (c \<lparr> userDataPromise := s \<rparr>) =
     (fst (token_exchange st f now c),
      (snd (token_exchange st f now c)) \<lparr> userDataPromise := s \<rparr>)"
  by (cases st) (simp_all add: cookie_slot refresh_slot)

lemma token_exchange_failure:
  "token_exchange st f now c = (Inl err, c') \<Longrightarrow> c' = c"
  by (cases st) (auto dest: cookie_failure refresh_failure)

lemma settled_lookup_new:
  "p \<notin> fst ` set xs \<Longrightarrow> map_of (xs @ [(p, r)]) p = Some r"
  by (induction xs) auto

lemma settle_exact:
  assumes "ops x = [(p, st)]" and "p \<notin> fst ` set (settled x)"
    and "settle p tf now3 pf x = Some x'"
    and "map_of (settled x') p = Some (Inl e)"
  shows "(case token_exchange st tf now3 (cl x) of
            (Inl err, c') \<Rightarrow> err = e \<and> cl x' = (cl x) \<lparr> userDataPromise := None \<rparr>
          | (Inr tok, c') \<Rightarrow>
              fetchUserData tok pf (cl x) = Inl e \<and> cl x' = c' \<lparr> userDataPromise := None \<rparr>)"
proof -
  have pending:
    "(case (res, c') of
            (Inl err, c') \<Rightarrow> err = e \<and> cl x' = (cl x) \<lparr> userDataPromise := None \<rparr>
          | (Inr tok, c') \<Rightarrow>
              fetchUserData tok pf (cl x) = Inl e \<and> cl x' = c' \<lparr> userDataPromise := None \<rparr>)"
    if fail: "\<And>err. res = Inl err \<Longrightarrow> c' = cl x"
      and base: "baseUrl c' = baseUrl (cl x)"
      and st: "step (TokenResponse p tf now3) x =
                 (case res of
                    Inr tok \<Rightarrow> Some (x \<lparr> cl := c', ops := set_stage p (HasToken tok) (ops x) \<rparr>)
                  | Inl err \<Rightarrow> Some (catch_clear p err (x \<lparr> cl := c' \<rparr>)))"
      and se: "settle p tf now3 pf x =
                 (case step (TokenResponse p tf now3) x of
                    None \<Rightarrow> None
                  | Some w1 \<Rightarrow> if map_of (ops w1) p = None then Some w1 else then_profile p pf w1)"
    for res c'
  proof (cases res)
    case (Inl err)
    with fail have c: "c' = cl x" by simp
    from Inl st have "step (TokenResponse p tf now3) x = Some (catch_clear p err (x \<lparr> cl := c' \<rparr>))"
      by simp
    with se assms(1,3) c have x': "x' = catch_clear p err x"
      by (simp add: catch_clear_def)
    then have "settled x' = settled x @ [(p, Inl err)]" by (simp add: catch_clear_def)
    with settled_lookup_new [OF assms(2)] assms(4) have "err = e" by simp
    with x' Inl show ?thesis by (simp add: catch_clear_def)
  next
    case (Inr tok)
    let ?y = "x \<lparr> cl := c', ops := set_stage p (HasToken tok) (ops x) \<rparr>"
    from Inr st have s: "step (TokenResponse p tf now3) x = Some ?y" by simp
    from assms(1) have o: "ops ?y = [(p, HasToken tok)]" by (simp add: set_stage_def)
    with se s assms(3) have t: "then_profile p pf ?y = Some x'" by simp
    from assms(2) have n: "p \<notin> fst ` set (settled ?y)" by simp
    from then_profile_failure [OF o n t assms(4)]
    have "cl x' = c' \<lparr> userDataPromise := None \<rparr>" and "fetchUserData tok pf c' = Inl e"
      by simp_all
    moreover have "fetchUserData tok pf c' = fetchUserData tok pf (cl x)"
      by (rule fetchUserData_baseUrl) (rule base)
    ultimately show ?thesis using Inr by simp
  qed
  show ?thesis
  proof (cases st)
    case AwaitingCookie
    obtain res c' where x: "fetchAccessTokenByCookie tf now3 (cl x) = (res, c')"
      by (cases "fetchAccessTokenByCookie tf now3 (cl x)")
    have "(case (res, c') of
            (Inl err, c') \<Rightarrow> err = e \<and> cl x' = (cl x) \<lparr> userDataPromise := None \<rparr>
          | (Inr tok, c') \<Rightarrow>
              fetchUserData tok pf (cl x) = Inl e \<and> cl x' = c' \<lparr> userDataPromise := None \<rparr>)"
    proof (rule pending)
      show "c' = cl x" if "res = Inl err" for err
        using that x cookie_failure by blast
      show "baseUrl c' = baseUrl (cl x)"
      proof (cases res)
        case (Inl err)
        with x cookie_failure show ?thesis by blast
      next
        case (Inr tok)
        with x cookie_success [of tf now3 "cl x" tok c'] show ?thesis by auto
      qed
      show "step (TokenResponse p tf now3) x =
                 (case res of
                    Inr tok \<Rightarrow> Some (x \<lparr> cl := c', ops := set_stage p (HasToken tok) (ops x) \<rparr>)
                  | Inl err \<Rightarrow> Some (catch_clear p err (x \<lparr> cl := c' \<rparr>)))"
        using assms(1) AwaitingCookie x by (simp split: sum.splits)
      show "settle p tf now3 pf x =
                 (case step (TokenResponse p tf now3) x of
                    None \<Rightarrow> None
                  | Some w1 \<Rightarrow> if map_of (ops w1) p = None then Some w1 else then_profile p pf w1)"
        using assms(1) AwaitingCookie by (simp add: settle_def)
    qed
    with AwaitingCookie x show ?thesis by simp
  next
    case AwaitingRefresh
    obtain res c' where x: "fetchAccessTokenByOAuthRefreshToken tf now3 (cl x) = (res, c')"
      by (cases "fetchAccessTokenByOAuthRefreshToken tf now3 (cl x)")
    have "(case (res, c') of
            (Inl err, c') \<Rightarrow> err = e \<and> cl x' = (cl x) \<lparr> userDataPromise := None \<rparr>
          | (Inr tok, c') \<Rightarrow>
              fetchUserData tok pf (cl x) = Inl e \<and> cl x' = c' \<lparr> userDataPromise := None \<rparr>)"
    proof (rule pending)
      show "c' = cl x" if "res = Inl err" for err
        using that x refresh_failure by blast
      show "baseUrl c' = baseUrl (cl x)"
      proof (cases res)
        case (Inl err)
        with x refresh_failure show ?thesis by blast
      next
        case (Inr tok)
        with x refresh_success [of tf now3 "cl x" tok c'] show ?thesis by auto
      qed
      show "step (TokenResponse p tf now3) x =
                 (case res of
                    Inr tok \<Rightarrow> Some (x \<lparr> cl := c', ops := set_stage p (HasToken tok) (ops x) \<rparr>)
                  | Inl err \<Rightarrow> Some (catch_clear p err (x \<lparr> cl := c' \<rparr>)))"
        using assms(1) AwaitingRefresh x by (simp split: sum.splits)
      show "settle p tf now3 pf x =
                 (case step (TokenResponse p tf now3) x of
                    None \<Rightarrow> None
                  | Some w1 \<Rightarrow> if map_of (ops w1) p = None then Some w1 else then_profile p pf w1)"
        using assms(1) AwaitingRefresh by (simp add: settle_def)
    qed
    with AwaitingRefresh x show ?thesis by simp
  next
    case (HasToken tok)
    with assms(1,3) have o: "ops x = [(p, HasToken tok)]" and t: "then_profile p pf x = Some x'"
      by (simp_all add: settle_def)
    from then_profile_failure [OF o assms(2) t assms(4)] HasToken show ?thesis by simp
  next
    case (AwaitingProfile tok)
    with assms(1,3) have o: "ops x = [(p, AwaitingProfile tok)]"
      and t: "step (ProfileResponse p pf) x = Some x'"
      by (simp_all add: settle_def)
    from profile_response_failure [OF o assms(2) t assms(4)] AwaitingProfile show ?thesis by simp
  qed
qed

lemma code_keeps_profile:
  "userData (fst (snd (fetchAccessTokenByOAuthCode oauthCode f now c b))) = userData c"
  by (simp add: fetchAccessTokenByOAuthCode_def split: sum.splits option.splits prod.splits)

lemma call_keeps_profile:
  "userData (cl (snd (getUserData forceRefresh now1 now2 w))) = userData (cl w)"
  by (simp add: getUserData_def getUserData_pending_def Let_def split: option.splits prod.splits)

lemma step_settled:
  assumes "step e w = Some w'"
  shows "settled w' = settled w \<or> (\<exists>p r. settled w' = settled w @ [(p, r)])"
proof (cases e)
  case (CallGetUserData forceRefresh now1 now2)
  with assms call_keeps_settled [of forceRefresh now1 now2 w] show ?thesis by auto
next
  case (TokenResponse q f now)
  with assms show ?thesis
    by (auto simp add: catch_clear_def split: option.splits stage.splits sum.splits prod.splits)
next
  case (ThenFetchUserData q)
  with assms show ?thesis by (auto split: option.splits stage.splits)
next
  case (ProfileResponse q f)
  with assms show ?thesis
    by (auto simp add: catch_clear_def then_store_def split: option.splits stage.splits sum.splits)
next
  case (CallByOAuthCode oauthCode f now)
  with assms show ?thesis by (auto split: prod.splits)
next
  case (CallByOAuthRefreshToken refresh f now)
  with assms show ?thesis by (auto split: prod.splits)
qed

lemma step_keeps_profile:
  assumes "step e w = Some w'" and "settled w' = settled w"
  shows "userData (cl w') = userData (cl w)"
proof (cases e)
  case (CallGetUserData forceRefresh now1 now2)
  with assms call_keeps_profile [of forceRefresh now1 now2 w] show ?thesis by auto
next
  case (TokenResponse q f now)
  with assms cookie_keeps_profile [of f now "cl w"] refresh_keeps_profile [of f now "cl w"]
  show ?thesis
    by (auto simp add: catch_clear_def split: option.splits stage.splits sum.splits prod.splits)
next
  case (ThenFetchUserData q)
  with assms show ?thesis by (auto split: option.splits stage.splits)
next
  case (ProfileResponse q f)
  with assms show ?thesis
    by (auto simp add: catch_clear_def then_store_def split: option.splits stage.splits sum.splits)
next
  case (CallByOAuthCode oauthCode f now)
  with assms code_keeps_profile [of oauthCode f now "cl w" "br w"] show ?thesis
    by (auto split: prod.splits)
next
  case (CallByOAuthRefreshToken refresh f now)
  with assms refresh_keeps_profile [of f now "cl w"] show ?thesis
    by (auto split: prod.splits)
qed

lemma step_failure_frame:
  assumes "step e w = Some w'" and "settled w' = settled w @ [(p, Inl err)]"
  shows "cl w' = (cl w) \<lparr> userDataPromise := None \<rparr>"
proof (cases e)
  case (CallGetUserData forceRefresh now1 now2)
  with assms call_keeps_settled [of forceRefresh now1 now2 w] show ?thesis by auto
next
  case (TokenResponse q f now)
  with assms show ?thesis
    by (auto simp add: catch_clear_def dest: cookie_failure refresh_failure
        split: option.splits stage.splits sum.splits prod.splits)
next
  case (ThenFetchUserData q)
  with assms show ?thesis by (auto split: option.splits stage.splits)
next
  case (ProfileResponse q f)
  with assms show ?thesis
    by (auto simp add: catch_clear_def then_store_def split: option.splits stage.splits sum.splits)
next
  case (CallByOAuthCode oauthCode f now)
  with assms show ?thesis by (auto split: prod.splits)
next
  case (CallByOAuthRefreshToken refresh f now)
  with assms show ?thesis by (auto split: prod.splits)
qed

lemma run_settled_mono:
  "run es x = Some y \<Longrightarrow> set (settled x) \<subseteq> set (settled y)"
proof (induction es arbitrary: x)
  case Nil
  then show ?case by simp
next
  case (Cons e es)
  then obtain x1 where s: "step e x = Some x1" and r: "run es x1 = Some y"
    by (auto split: option.splits)
  from step_settled [OF s] have "set (settled x) \<subseteq> set (settled x1)" by auto
  with Cons.IH [OF r] show ?case by blast
qed

lemma run_while_pending:
  assumes "single_flight x" and "userDataPromise (cl x) = Some p"
    and "run es x = Some y" and "p \<notin> fst ` set (settled y)"
  shows "single_flight y \<and> userDataPromise (cl y) = Some p \<and> userData (cl y) = userData (cl x)"
  using assms
proof (induction es arbitrary: x)
  case Nil
  then show ?case by simp
next
  case (Cons e es)
  then obtain x1 where s: "step e x = Some x1" and r: "run es x1 = Some y"
    by (auto split: option.splits)
  from single_flight_step [OF Cons.prems(1) s] have i: "single_flight x1" .
  from step_while_pending [OF Cons.prems(1) s Cons.prems(2)]
  have "userDataPromise (cl x1) = Some p \<and> settled x1 = settled x"
  proof
    assume "userDataPromise (cl x1) = Some p \<and> settled x1 = settled x"
    then show ?thesis .
  next
    assume "userDataPromise (cl x1) = None \<and> ops x1 = []
             \<and> (\<exists>r. settled x1 = settled x @ [(p, r)])"
    then have "p \<in> fst ` set (settled x1)" by force
    with run_settled_mono [OF r] Cons.prems(4) show ?thesis by auto
  qed
  then have k: "userDataPromise (cl x1) = Some p" and u: "settled x1 = settled x" by simp_all
  from step_keeps_profile [OF s u] have "userData (cl x1) = userData (cl x)" .
  with Cons.IH [OF i k r Cons.prems(4)] show ?case by simp
qed

lemma cookie_valid:
  assumes "res_ok r" and "res_json r = Some j"
    and "GET_FRONTEGG_TOKEN_RESPONSE_SCHEMA_parse j = Inr data"
  shows "fetchAccessTokenByCookie (Responded r) now c =
           (Inr (access_token data),
            c \<lparr> accessToken := Some (access_token data),
                refreshToken := Some (refresh_token data),
                tokenExpirationTime := Some (now + expires_in data * 1000) \<rparr>)"
  using assms
  by (simp add: fetchAccessTokenByCookie_def fetchWithAssert_def calculateTokenExpirationTime_def)

lemma refresh_valid:
  assumes "res_ok r" and "res_json r = Some j"
    and "GET_FRONTEGG_TOKEN_RESPONSE_SCHEMA_parse j = Inr data"
  shows "fetchAccessTokenByOAuthRefreshToken (Responded r) now c =
           (Inr (access_token data),
            c \<lparr> accessToken := Some (access_token data),
                refreshToken := Some (refresh_token data),
                tokenExpirationTime := Some (now + expires_in data * 1000) \<rparr>)"
  using assms
  by (simp add: fetchAccessTokenByOAuthRefreshToken_def fetchWithAssert_def
      calculateTokenExpirationTime_def)

lemma call_starts_operation:
  assumes "getUserData forceRefresh now1 now2 w = (Promise p, w1)"
    and "userDataPromise (cl w) = None"
  shows "ops w1 = ops w @ [(p, fst (getAccessToken forceRefresh now2 (cl w)))]"
  using assms
  by (auto simp add: getUserData_def getUserData_pending_def Let_def
      split: option.splits if_splits prod.splits)

lemma call_joins_operation:
  assumes "getUserData forceRefresh now1 now2 w = (Promise p, w1)"
    and "userDataPromise (cl w) \<noteq> None"
  shows "w1 = w"
  using assms
  by (auto simp add: getUserData_def getUserData_pending_def split: option.splits if_splits)

lemma profile_response_settles:
  assumes "ops x = [(p, AwaitingProfile tok)]"
  shows "\<exists>x'. step (ProfileResponse p pf) x = Some x' \<and> p \<in> fst ` set (settled x')"
  using assms
  by (cases "fetchUserData tok pf (cl x)") (simp_all add: catch_clear_def then_store_def)

lemma then_profile_settles:
  assumes "ops x = [(p, HasToken tok)]"
  shows "\<exists>x'. then_profile p pf x = Some x' \<and> p \<in> fst ` set (settled x')"
proof -
  let ?y = "x \<lparr> ops := set_stage p (AwaitingProfile tok) (ops x),
                 sent := sent x @ [fetchUserData_request tok (cl x)] \<rparr>"
  from assms have s: "step (ThenFetchUserData p) x = Some ?y" by simp
  from assms have o: "ops ?y = [(p, AwaitingProfile tok)]" by (simp add: set_stage_def)
  from profile_response_settles [OF o, of pf] s show ?thesis
    by (simp add: then_profile_def)
qed

lemma settle_settles:
  assumes "ops x = [(p, st)]"
  shows "\<exists>x'. settle p tf now3 pf x = Some x' \<and> p \<in> fst ` set (settled x')"
proof (cases st)
  case AwaitingCookie
  obtain res c' where x: "fetchAccessTokenByCookie tf now3 (cl x) = (res, c')"
    by (cases "fetchAccessTokenByCookie tf now3 (cl x)")
  show ?thesis
  proof (cases res)
    case (Inl err)
    with assms AwaitingCookie x show ?thesis
      by (simp add: settle_def catch_clear_def)
  next
    case (Inr tok)
    let ?y = "x \<lparr> cl := c', ops := set_stage p (HasToken tok) (ops x) \<rparr>"
    from assms have o: "ops ?y = [(p, HasToken tok)]" by (simp add: set_stage_def)
    from then_profile_settles [OF o, of pf] assms AwaitingCookie x Inr show ?thesis
      by (simp add: settle_def set_stage_def)
  qed
next
  case AwaitingRefresh
  obtain res c' where x: "fetchAccessTokenByOAuthRefreshToken tf now3 (cl x) = (res, c')"
    by (cases "fetchAccessTokenByOAuthRefreshToken tf now3 (cl x)")
  show ?thesis
  proof (cases res)
    case (Inl err)
    with assms AwaitingRefresh x show ?thesis
      by (simp add: settle_def catch_clear_def)
  next
    case (Inr tok)
    let ?y = "x \<lparr> cl := c', ops := set_stage p (HasToken tok) (ops x) \<rparr>"
    from assms have o: "ops ?y = [(p, HasToken tok)]" by (simp add: set_stage_def)
    from then_profile_settles [OF o, of pf] assms AwaitingRefresh x Inr show ?thesis
      by (simp add: settle_def set_stage_def)
  qed
next
  case (HasToken tok)
  with assms then_profile_settles [of x p tok pf] show ?thesis
    by (simp add: settle_def)
next
  case (AwaitingProfile tok)
  with assms profile_response_settles [of x p tok pf] show ?thesis
    by (simp add: settle_def)
qed

lemma await_getUserData_settles:
  assumes "reachable w"
  shows "\<exists>r w'. await_getUserData forceRefresh now1 now2 tf now3 pf w = Some (r, w')"
proof -
  obtain ret w1 where g: "getUserData forceRefresh now1 now2 w = (ret, w1)"
    by (cases "getUserData forceRefresh now1 now2 w")
  show ?thesis
  proof (cases ret)
    case (Profile u)
    with g show ?thesis by (simp add: await_getUserData_def)
  next
    case (Promise p)
    with g have gp: "getUserData forceRefresh now1 now2 w = (Promise p, w1)" by simp
    from g have "step (CallGetUserData forceRefresh now1 now2) w = Some w1" by simp
    with assms have "reachable w1" by (rule reachable_step)
    then have i: "single_flight w1" by (rule reachable_single_flight)
    from call_returns_promise [OF gp] have s: "userDataPromise (cl w1) = Some p" by simp
    from pending_operation(1) [OF i s] obtain st where o: "ops w1 = [(p, st)]" by blast
    from settle_settles [OF o, of tf now3 pf] obtain x'
      where t: "settle p tf now3 pf w1 = Some x'" and m: "p \<in> fst ` set (settled x')" by blast
    from m obtain r where "map_of (settled x') p = Some r"
      by (metis map_of_eq_None_iff not_None_eq)
    with gp t show ?thesis by (simp add: await_getUserData_def)
  qed
qed

lemma reachable_fresh_world: "reachable fresh_world"
  unfolding fresh_world_def by (rule reachable_initial)

lemma fresh_world_profile_fails:
  "map_option fst (await_getUserData False 0 0 (HttpResponse_json FRONTEGG_RESPONSE) 10
       (EmptyResponse 401) fresh_world) = Some (Inl unauthorized)"
  by code_simp

lemma fresh_world_exchange_fails:
  "map_option fst (await_getUserData False 0 0 FailedToFetch 10
       (HttpResponse_json FRONTEGG_USER_DATA) fresh_world) = Some (Inl FetchTypeError)"
  by code_simp

lemma fresh_world_call: "getUserData False 0 0 fresh_world = (Promise 0, started_world)"
proof -
  have "fst (getUserData False 0 0 fresh_world) = Promise 0" by code_simp
  then show ?thesis by (simp add: started_world_def prod_eq_iff)
qed

lemma cached_world_call: "getUserData True 1000 1000 cached_world = (Promise 0, pending_world)"
proof -
  have "fst (getUserData True 1000 1000 cached_world) = Promise 0" by code_simp
  then show ?thesis by (simp add: pending_world_def prod_eq_iff)
qed

lemma reachable_cached_world: "reachable cached_world"
  unfolding cached_world_def by (rule reachable_initial)

lemma cached_world_profile_fails:
  "map_option fst (await_getUserData True 1000 1000 (HttpResponse_json FRONTEGG_RESPONSE) 10
       (EmptyResponse 401) cached_world) = Some (Inl unauthorized)"
  by code_simp

lemma started_world_joined:
  "map_option settled (run [CallGetUserData True 5 5] started_world) = Some []"
  by code_simp

lemma started_world_fails:
  "map_option settled
     (case run [CallGetUserData True 5 5] started_world of
        None \<Rightarrow> None | Some wm \<Rightarrow> step (TokenResponse 0 FailedToFetch 10) wm)
   = Some [(0, Inl FetchTypeError)]"
  by code_simp

text \<open>
  C2, as stated: after a failing \<open>getUserData\<close> the token state is exactly what it was
  before the call. It fails when the token exchange succeeds and the profile request
  fails: on a new client, with the silent exchange answered by the token payload of the
  tests and the profile request by an empty 401, the operation settles with the
  \<open>FronteggError\<close> of status 401, and the access token, \<open>null\<close> before the call, is
  the exchanged one after it.
\<close>

theorem getUserData_failure_counterexample:
  "map_option fst (await_getUserData False 0 0 (HttpResponse_json FRONTEGG_RESPONSE) 10
       (EmptyResponse 401) fresh_world) = Some (Inl unauthorized)
   \<and> map_option (accessToken \<circ> cl \<circ> snd)
       (await_getUserData False 0 0 (HttpResponse_json FRONTEGG_RESPONSE) 10
          (EmptyResponse 401) fresh_world) = Some (Some ''test-access-token'')
   \<and> accessToken (cl fresh_world) = None"
  by code_simp

text \<open>
  C2, amended. Let a call of \<open>getUserData\<close> in a reachable world \<open>w\<close> return the
  pending operation \<open>p\<close>, leaving the world \<open>w1\<close>.
  \<^item> Whatever events \<open>es\<close> are handled after the call (other calls, responses, public
    exchanges), if \<open>p\<close> has not settled after them and the next event settles \<open>p\<close>
    with an error, then the cached profile is what it was before the call, the slot
    \<open>userDataPromise\<close> is empty (so that the next call starts a new operation), and that
    last event has changed nothing else in the client: no partial update.
  \<^item> When the call is awaited with no other event in between and ends in an error
    \<open>e\<close>, the client afterwards is determined. The operation is at a stage \<open>st\<close> (the
    one \<open>getAccessToken\<close> chose if the call started it, the one it had if the call
    joined it). If the token exchange it waits for throws, \<open>e\<close> is that error and the
    client is exactly as before the call, with the slot empty. If it has a token already
    (no exchange is made), the client is exactly as before the call, with the slot empty,
    whatever \<open>tf\<close> is. If the exchange it waits for receives a valid payload \<open>data\<close>,
    then it is the profile request that failed with \<open>e\<close>, and the client is as before
    the call except that the slot is empty and that \<open>accessToken\<close>, \<open>refreshToken\<close>
    and \<open>tokenExpirationTime\<close> hold the exchanged tokens and \<open>now3 + expires_in * 1000\<close>:
    the token fields are not rolled back.
\<close>

theorem getUserData_failure:
  assumes "reachable w"
    and "getUserData forceRefresh now1 now2 w = (Promise p, w1)"
  shows "(\<forall>es wm el w' e.
            run es w1 = Some wm \<longrightarrow> p \<notin> fst ` set (settled wm) \<longrightarrow>
            step el wm = Some w' \<longrightarrow> map_of (settled w') p = Some (Inl e) \<longrightarrow>
              userData (cl w') = userData (cl w)
              \<and> userDataPromise (cl w') = None
              \<and> cl w' = (cl wm) \<lparr> userDataPromise := None \<rparr>)
       \<and> (\<forall>tf now3 pf e w'.
            await_getUserData forceRefresh now1 now2 tf now3 pf w = Some (Inl e, w') \<longrightarrow>
              (\<exists>st. ops w1 = [(p, st)]
                 \<and> (userDataPromise (cl w) = None \<longrightarrow>
                       st = fst (getAccessToken forceRefresh now2 (cl w)))
                 \<and> (userDataPromise (cl w) \<noteq> None \<longrightarrow> ops w = [(p, st)])
                 \<and> (case token_exchange st tf now3 (cl w) of
                       (Inl err, c') \<Rightarrow>
                         err = e \<and> cl w' = (cl w) \<lparr> userDataPromise := None \<rparr>
                     | (Inr tok, c') \<Rightarrow>
                         fetchUserData tok pf (cl w) = Inl e
                         \<and> cl w' = c' \<lparr> userDataPromise := None \<rparr>)
                 \<and> (\<forall>tok. st = HasToken tok \<or> st = AwaitingProfile tok \<longrightarrow>
                       cl w' = (cl w) \<lparr> userDataPromise := None \<rparr>)
                 \<and> (\<forall>r j data.
                       (st = AwaitingCookie \<or> st = AwaitingRefresh) \<longrightarrow>
                       tf = Responded r \<longrightarrow> res_ok r \<longrightarrow> res_json r = Some j \<longrightarrow>
                       GET_FRONTEGG_TOKEN_RESPONSE_SCHEMA_parse j = Inr data \<longrightarrow>
                         fetchUserData (access_token data) pf (cl w) = Inl e
                         \<and> cl w' = (cl w)
                              \<lparr> accessToken := Some (access_token data),
                                refreshToken := Some (refresh_token data),
                                tokenExpirationTime := Some (now3 + expires_in data * 1000),
                                userDataPromise := None \<rparr>)))"
proof -
  from assms(2) have "step (CallGetUserData forceRefresh now1 now2) w = Some w1" by simp
  with assms(1) have "reachable w1" by (rule reachable_step)
  then have i: "single_flight w1" by (rule reachable_single_flight)
  from call_returns_promise [OF assms(2)]
  have c: "cl w1 = (cl w) \<lparr> userDataPromise := Some p \<rparr>" .
  then have s: "userDataPromise (cl w1) = Some p" and u: "userData (cl w1) = userData (cl w)"
    by simp_all
  from pending_operation [OF i s] obtain st where o: "ops w1 = [(p, st)]"
    and n: "p \<notin> fst ` set (settled w1)" by blast
  have trace: "userData (cl w') = userData (cl w)
              \<and> userDataPromise (cl w') = None
              \<and> cl w' = (cl wm) \<lparr> userDataPromise := None \<rparr>"
    if r: "run es w1 = Some wm" and nm: "p \<notin> fst ` set (settled wm)"
      and l: "step el wm = Some w'" and m: "map_of (settled w') p = Some (Inl e)"
    for es wm el w' e
  proof -
    from run_while_pending [OF i s r nm]
    have im: "single_flight wm" and sm: "userDataPromise (cl wm) = Some p"
      and um: "userData (cl wm) = userData (cl w1)" by simp_all
    from step_while_pending [OF im l sm]
    have "\<exists>r. settled w' = settled wm @ [(p, r)]"
    proof
      assume "userDataPromise (cl w') = Some p \<and> settled w' = settled wm"
      with m have "map_of (settled wm) p = Some (Inl e)" by simp
      then have "p \<in> fst ` set (settled wm)"
        by (metis map_of_eq_None_iff option.distinct(1))
      with nm show ?thesis by simp
    next
      assume "userDataPromise (cl w') = None \<and> ops w' = []
               \<and> (\<exists>r. settled w' = settled wm @ [(p, r)])"
      then show ?thesis by blast
    qed
    then obtain r where a: "settled w' = settled wm @ [(p, r)]" by blast
    with settled_lookup_new [OF nm, of r] m have "r = Inl e" by simp
    with a have "settled w' = settled wm @ [(p, Inl e)]" by simp
    from step_failure_frame [OF l this]
    have f: "cl w' = (cl wm) \<lparr> userDataPromise := None \<rparr>" .
    with um u show ?thesis by simp
  qed
  have exact: "\<exists>st. ops w1 = [(p, st)]
                 \<and> (userDataPromise (cl w) = None \<longrightarrow>
                       st = fst (getAccessToken forceRefresh now2 (cl w)))
                 \<and> (userDataPromise (cl w) \<noteq> None \<longrightarrow> ops w = [(p, st)])
                 \<and> (case token_exchange st tf now3 (cl w) of
                       (Inl err, c') \<Rightarrow>
                         err = e \<and> cl w' = (cl w) \<lparr> userDataPromise := None \<rparr>
                     | (Inr tok, c') \<Rightarrow>
                         fetchUserData tok pf (cl w) = Inl e
                         \<and> cl w' = c' \<lparr> userDataPromise := None \<rparr>)
                 \<and> (\<forall>tok. st = HasToken tok \<or> st = AwaitingProfile tok \<longrightarrow>
                       cl w' = (cl w) \<lparr> userDataPromise := None \<rparr>)
                 \<and> (\<forall>r j data.
                       (st = AwaitingCookie \<or> st = AwaitingRefresh) \<longrightarrow>
                       tf = Responded r \<longrightarrow> res_ok r \<longrightarrow> res_json r = Some j \<longrightarrow>
                       GET_FRONTEGG_TOKEN_RESPONSE_SCHEMA_parse j = Inr data \<longrightarrow>
                         fetchUserData (access_token data) pf (cl w) = Inl e
                         \<and> cl w' = (cl w)
                              \<lparr> accessToken := Some (access_token data),
                                refreshToken := Some (refresh_token data),
                                tokenExpirationTime := Some (now3 + expires_in data * 1000),
                                userDataPromise := None \<rparr>)"
    if a: "await_getUserData forceRefresh now1 now2 tf now3 pf w = Some (Inl e, w')"
    for tf now3 pf e w'
  proof -
    from a assms(2) have t: "settle p tf now3 pf w1 = Some w'"
      and m: "map_of (settled w') p = Some (Inl e)"
      by (auto simp add: await_getUserData_def split: option.splits)
    have b: "fetchUserData tok pf ((cl w) \<lparr> userDataPromise := Some p \<rparr>)
               = fetchUserData tok pf (cl w)" for tok
      by (rule fetchUserData_baseUrl) simp
    from settle_exact [OF o n t m]
    have x: "(case token_exchange st tf now3 (cl w) of
                (Inl err, c') \<Rightarrow>
                  err = e \<and> cl w' = (cl w) \<lparr> userDataPromise := None \<rparr>
              | (Inr tok, c') \<Rightarrow>
                  fetchUserData tok pf (cl w) = Inl e
                  \<and> cl w' = c' \<lparr> userDataPromise := None \<rparr>)"
      unfolding c token_exchange_slot
      by (cases "token_exchange st tf now3 (cl w)") (auto simp add: b split: sum.splits)
    have 1: "userDataPromise (cl w) = None \<longrightarrow>
               st = fst (getAccessToken forceRefresh now2 (cl w))"
    proof
      assume k: "userDataPromise (cl w) = None"
      with assms(1) have "ops w = []"
        using reachable_single_flight [of w] by (simp add: single_flight_def)
      with call_starts_operation [OF assms(2) k] o
      show "st = fst (getAccessToken forceRefresh now2 (cl w))" by simp
    qed
    have 2: "userDataPromise (cl w) \<noteq> None \<longrightarrow> ops w = [(p, st)]"
      using call_joins_operation [OF assms(2)] o by auto
    have 3: "\<forall>tok. st = HasToken tok \<or> st = AwaitingProfile tok \<longrightarrow>
               cl w' = (cl w) \<lparr> userDataPromise := None \<rparr>"
      using x by auto
    have 4: "\<forall>r j data.
               (st = AwaitingCookie \<or> st = AwaitingRefresh) \<longrightarrow>
               tf = Responded r \<longrightarrow> res_ok r \<longrightarrow> res_json r = Some j \<longrightarrow>
               GET_FRONTEGG_TOKEN_RESPONSE_SCHEMA_parse j = Inr data \<longrightarrow>
                 fetchUserData (access_token data) pf (cl w) = Inl e
                 \<and> cl w' = (cl w)
                      \<lparr> accessToken := Some (access_token data),
                        refreshToken := Some (refresh_token data),
                        tokenExpirationTime := Some (now3 + expires_in data * 1000),
                        userDataPromise := None \<rparr>"
    proof (intro allI impI)
      fix r j data
      assume st: "st = AwaitingCookie \<or> st = AwaitingRefresh" and tf: "tf = Responded r"
        and v: "res_ok r" "res_json r = Some j"
          "GET_FRONTEGG_TOKEN_RESPONSE_SCHEMA_parse j = Inr data"
      from st tf cookie_valid [OF v, of now3 "cl w"] refresh_valid [OF v, of now3 "cl w"]
      have "token_exchange st tf now3 (cl w) =
              (Inr (access_token data),
               (cl w) \<lparr> accessToken := Some (access_token data),
                        refreshToken := Some (refresh_token data),
                        tokenExpirationTime := Some (now3 + expires_in data * 1000) \<rparr>)"
        by auto
      with x show "fetchUserData (access_token data) pf (cl w) = Inl e
                 \<and> cl w' = (cl w)
                      \<lparr> accessToken := Some (access_token data),
                        refreshToken := Some (refresh_token data),
                        tokenExpirationTime := Some (now3 + expires_in data * 1000),
                        userDataPromise := None \<rparr>"
        by simp
    qed
    from o x 1 2 3 4 show ?thesis by (intro exI [of _ st] conjI)
  qed
  show ?thesis
  proof (intro conjI allI impI)
    fix es wm el w' e
    assume "run es w1 = Some wm" "p \<notin> fst ` set (settled wm)" "step el wm = Some w'"
      "map_of (settled w') p = Some (Inl e)"
    from trace [OF this]
    show "userData (cl w') = userData (cl w)" "userDataPromise (cl w') = None"
      "cl w' = (cl wm) \<lparr> userDataPromise := None \<rparr>" by blast+
  next
    fix tf now3 pf e w'
    assume "await_getUserData forceRefresh now1 now2 tf now3 pf w = Some (Inl e, w')"
    from exact [OF this]
    show "\<exists>st. ops w1 = [(p, st)]
                 \<and> (userDataPromise (cl w) = None \<longrightarrow>
                       st = fst (getAccessToken forceRefresh now2 (cl w)))
                 \<and> (userDataPromise (cl w) \<noteq> None \<longrightarrow> ops w = [(p, st)])
                 \<and> (case token_exchange st tf now3 (cl w) of
                       (Inl err, c') \<Rightarrow>
                         err = e \<and> cl w' = (cl w) \<lparr> userDataPromise := None \<rparr>
                     | (Inr tok, c') \<Rightarrow>
                         fetchUserData tok pf (cl w) = Inl e
                         \<and> cl w' = c' \<lparr> userDataPromise := None \<rparr>)
                 \<and> (\<forall>tok. st = HasToken tok \<or> st = AwaitingProfile tok \<longrightarrow>
                       cl w' = (cl w) \<lparr> userDataPromise := None \<rparr>)
                 \<and> (\<forall>r j data.
                       (st = AwaitingCookie \<or> st = AwaitingRefresh) \<longrightarrow>
                       tf = Responded r \<longrightarrow> res_ok r \<longrightarrow> res_json r = Some j \<longrightarrow>
                       GET_FRONTEGG_TOKEN_RESPONSE_SCHEMA_parse j = Inr data \<longrightarrow>
                         fetchUserData (access_token data) pf (cl w) = Inl e
                         \<and> cl w' = (cl w)
                              \<lparr> accessToken := Some (access_token data),
                                refreshToken := Some (refresh_token data),
                                tokenExpirationTime := Some (now3 + expires_in data * 1000),
                                userDataPromise := None \<rparr>)" .
  qed
qed

theorem getUserData_failure_witness:
  "reachable fresh_world
   \<and> getUserData False 0 0 fresh_world = (Promise 0, started_world)
   \<and> (\<exists>w'. await_getUserData False 0 0 (HttpResponse_json FRONTEGG_RESPONSE) 10
               (EmptyResponse 401) fresh_world = Some (Inl unauthorized, w')
            \<and> accessToken (cl w') = Some ''test-access-token''
            \<and> refreshToken (cl w') = Some ''test-refresh-token''
            \<and> tokenExpirationTime (cl w') = Some 3600010
            \<and> userData (cl w') = None
            \<and> userDataPromise (cl w') = None)
   \<and> (\<exists>w'. await_getUserData False 0 0 FailedToFetch 10
               (HttpResponse_json FRONTEGG_USER_DATA) fresh_world = Some (Inl FetchTypeError, w')
            \<and> cl w' = cl fresh_world)
   \<and> (\<exists>wm w'. run [CallGetUserData True 5 5] started_world = Some wm
            \<and> step (TokenResponse 0 FailedToFetch 10) wm = Some w'
            \<and> map_of (settled w') 0 = Some (Inl FetchTypeError)
            \<and> userData (cl w') = userData (cl fresh_world)
            \<and> userDataPromise (cl w') = None)
   \<and> reachable cached_world
   \<and> getUserData True 1000 1000 cached_world = (Promise 0, pending_world)
   \<and> (\<exists>w'. await_getUserData True 1000 1000 (HttpResponse_json FRONTEGG_RESPONSE) 10
               (EmptyResponse 401) cached_world = Some (Inl unauthorized, w')
            \<and> cl w' = cl cached_world)"
proof -
  note t = getUserData_failure [OF reachable_fresh_world fresh_world_call]
  have n: "cl fresh_world \<lparr> userDataPromise := None \<rparr> = cl fresh_world"
    by (simp add: fresh_world_def initial_def constructor_def clientConfig_def)
  have k: "userDataPromise (cl fresh_world) = None"
    by (simp add: fresh_world_def initial_def constructor_def clientConfig_def)
  have u: "userData (cl fresh_world) = None"
    by (simp add: fresh_world_def initial_def constructor_def clientConfig_def)
  have g: "fst (getAccessToken False 0 (cl fresh_world)) = AwaitingCookie"
    by (simp add: fresh_world_def initial_def constructor_def clientConfig_def getAccessToken_def)
  have v: "res_ok \<lparr> res_status = 200, res_text = Some (JSON_stringify FRONTEGG_RESPONSE),
                     res_json = Some FRONTEGG_RESPONSE, res_trace_id = None \<rparr>"
    by (simp add: res_ok_def)
  have d: "GET_FRONTEGG_TOKEN_RESPONSE_SCHEMA_parse FRONTEGG_RESPONSE =
             Inr \<lparr> token_type = ''Bearer'', access_token = ''test-access-token'',
                   id_token = ''test-id-token'', refresh_token = ''test-refresh-token'',
                   expires_in = 3600 \<rparr>"
    by (simp add: GET_FRONTEGG_TOKEN_RESPONSE_SCHEMA_parse_def FRONTEGG_RESPONSE_def)
  from fresh_world_profile_fails obtain w2 where
    a2: "await_getUserData False 0 0 (HttpResponse_json FRONTEGG_RESPONSE) 10
           (EmptyResponse 401) fresh_world = Some (Inl unauthorized, w2)"
    by (cases "await_getUserData False 0 0 (HttpResponse_json FRONTEGG_RESPONSE) 10
           (EmptyResponse 401) fresh_world") auto
  from t [THEN conjunct2, rule_format, OF a2] obtain st where
    h2: "userDataPromise (cl fresh_world) = None \<longrightarrow>
           st = fst (getAccessToken False 0 (cl fresh_world))"
    and x2: "\<forall>r j data.
               (st = AwaitingCookie \<or> st = AwaitingRefresh) \<longrightarrow>
               HttpResponse_json FRONTEGG_RESPONSE = Responded r \<longrightarrow> res_ok r \<longrightarrow>
               res_json r = Some j \<longrightarrow>
               GET_FRONTEGG_TOKEN_RESPONSE_SCHEMA_parse j = Inr data \<longrightarrow>
                 fetchUserData (access_token data) (EmptyResponse 401) (cl fresh_world)
                   = Inl unauthorized
                 \<and> cl w2 = (cl fresh_world)
                      \<lparr> accessToken := Some (access_token data),
                        refreshToken := Some (refresh_token data),
                        tokenExpirationTime := Some (10 + expires_in data * 1000),
                        userDataPromise := None \<rparr>"
    by (elim exE conjE)
  from h2 k g have st: "st = AwaitingCookie" by simp
  note y2 = x2 [rule_format, OF _ _ v _ d]
  from y2 st
  have c2: "cl w2 = (cl fresh_world)
              \<lparr> accessToken := Some ''test-access-token'',
                refreshToken := Some ''test-refresh-token'',
                tokenExpirationTime := Some 3600010,
                userDataPromise := None \<rparr>"
    by (simp add: HttpResponse_json_def)
  from fresh_world_exchange_fails obtain w3 where
    a3: "await_getUserData False 0 0 FailedToFetch 10
           (HttpResponse_json FRONTEGG_USER_DATA) fresh_world = Some (Inl FetchTypeError, w3)"
    by (cases "await_getUserData False 0 0 FailedToFetch 10
           (HttpResponse_json FRONTEGG_USER_DATA) fresh_world") auto
  have f: "token_exchange AwaitingCookie FailedToFetch 10 (cl fresh_world)
             = (Inl FetchTypeError, cl fresh_world)"
    by (simp add: fetchAccessTokenByCookie_def fetchWithAssert_def)
  from t [THEN conjunct2, rule_format, OF a3] obtain st' where
    h3: "userDataPromise (cl fresh_world) = None \<longrightarrow>
           st' = fst (getAccessToken False 0 (cl fresh_world))"
    and x3: "(case token_exchange st' FailedToFetch 10 (cl fresh_world) of
            (Inl err, c') \<Rightarrow>
              err = FetchTypeError \<and> cl w3 = (cl fresh_world) \<lparr> userDataPromise := None \<rparr>
          | (Inr tok, c') \<Rightarrow>
              fetchUserData tok (HttpResponse_json FRONTEGG_USER_DATA) (cl fresh_world)
                = Inl FetchTypeError
              \<and> cl w3 = c' \<lparr> userDataPromise := None \<rparr>)"
    by (elim exE conjE)
  from h3 k g have "st' = AwaitingCookie" by simp
  with x3 have "(case token_exchange AwaitingCookie FailedToFetch 10 (cl fresh_world) of
            (Inl err, c') \<Rightarrow>
              err = FetchTypeError \<and> cl w3 = (cl fresh_world) \<lparr> userDataPromise := None \<rparr>
          | (Inr tok, c') \<Rightarrow>
              fetchUserData tok (HttpResponse_json FRONTEGG_USER_DATA) (cl fresh_world)
                = Inl FetchTypeError
              \<and> cl w3 = c' \<lparr> userDataPromise := None \<rparr>)"
    by simp
  with f n have c3: "cl w3 = cl fresh_world" by simp
  from started_world_joined obtain wm where
    r: "run [CallGetUserData True 5 5] started_world = Some wm" and sm: "settled wm = []"
    by (cases "run [CallGetUserData True 5 5] started_world") auto
  with started_world_fails obtain w4 where
    l: "step (TokenResponse 0 FailedToFetch 10) wm = Some w4"
    and s4: "settled w4 = [(0, Inl FetchTypeError)]"
    by (cases "step (TokenResponse 0 FailedToFetch 10) wm") auto
  from sm have nm: "0 \<notin> fst ` set (settled wm)" by simp
  from s4 have m4: "map_of (settled w4) 0 = Some (Inl FetchTypeError)" by simp
  from t [THEN conjunct1, rule_format, OF r nm l m4]
  have c4: "userData (cl w4) = userData (cl fresh_world) \<and> userDataPromise (cl w4) = None"
    by blast
  from a2 c2 u have e2: "\<exists>w'. await_getUserData False 0 0 (HttpResponse_json FRONTEGG_RESPONSE) 10
               (EmptyResponse 401) fresh_world = Some (Inl unauthorized, w')
            \<and> accessToken (cl w') = Some ''test-access-token''
            \<and> refreshToken (cl w') = Some ''test-refresh-token''
            \<and> tokenExpirationTime (cl w') = Some 3600010
            \<and> userData (cl w') = None
            \<and> userDataPromise (cl w') = None"
    by simp
  from a3 c3 have e3: "\<exists>w'. await_getUserData False 0 0 FailedToFetch 10
               (HttpResponse_json FRONTEGG_USER_DATA) fresh_world = Some (Inl FetchTypeError, w')
            \<and> cl w' = cl fresh_world"
    by simp
  from r l m4 c4 have e4: "\<exists>wm w'. run [CallGetUserData True 5 5] started_world = Some wm
            \<and> step (TokenResponse 0 FailedToFetch 10) wm = Some w'
            \<and> map_of (settled w') 0 = Some (Inl FetchTypeError)
            \<and> userData (cl w') = userData (cl fresh_world)
            \<and> userDataPromise (cl w') = None"
    by blast
  have n': "cl cached_world \<lparr> userDataPromise := None \<rparr> = cl cached_world"
    by (simp add: cached_world_def initial_def constructor_def clientConfig_def)
  have k': "userDataPromise (cl cached_world) = None"
    by (simp add: cached_world_def initial_def constructor_def clientConfig_def)
  have g': "fst (getAccessToken True 1000 (cl cached_world)) = HasToken ''test-access-token''"
    by (simp add: cached_world_def initial_def constructor_def clientConfig_def
        getAccessToken_def USER_DATA_def)
  from cached_world_profile_fails obtain w5 where
    a5: "await_getUserData True 1000 1000 (HttpResponse_json FRONTEGG_RESPONSE) 10
           (EmptyResponse 401) cached_world = Some (Inl unauthorized, w5)"
    by (cases "await_getUserData True 1000 1000 (HttpResponse_json FRONTEGG_RESPONSE) 10
           (EmptyResponse 401) cached_world") auto
  from getUserData_failure [OF reachable_cached_world cached_world_call,
      THEN conjunct2, rule_format, OF a5]
  obtain st5 where
    h5: "userDataPromise (cl cached_world) = None \<longrightarrow>
           st5 = fst (getAccessToken True 1000 (cl cached_world))"
    and x5: "\<forall>tok. st5 = HasToken tok \<or> st5 = AwaitingProfile tok \<longrightarrow>
               cl w5 = (cl cached_world) \<lparr> userDataPromise := None \<rparr>"
    by (elim exE conjE)
  from h5 k' g' have "st5 = HasToken ''test-access-token''" by simp
  with x5 n' have c5: "cl w5 = cl cached_world" by simp
  with a5 have e5: "\<exists>w'. await_getUserData True 1000 1000 (HttpResponse_json FRONTEGG_RESPONSE) 10
               (EmptyResponse 401) cached_world = Some (Inl unauthorized, w')
            \<and> cl w' = cl cached_world"
    by simp
  from reachable_fresh_world fresh_world_call e2 e3 e4 reachable_cached_world cached_world_call e5
  show ?thesis by (intro conjI)
qed

end
